theory Spec2Isabelle
  imports Complex_Main "HOL-Library.Char_ord" "HOL-Library.List_Lexorder"
begin

section \<open>Text primitives of the Python source\<close>

text \<open>
  Strings are \<^typ>\<open>string\<close>, one \<^typ>\<open>char\<close> per character. The model covers ASCII text:
  the whitespace test is Python's \<open>str.isspace\<close> on the ASCII range (tab, line feed,
  vertical tab, form feed, carriage return, the four separators 0x1C..0x1F and the blank),
  and case conversion acts on the letters A..Z and a..z only.
\<close>

definition isspace :: "char \<Rightarrow> bool" where
  "isspace c = (c \<in> set [CHR 0x09, CHR 0x0A, CHR 0x0B, CHR 0x0C, CHR 0x0D,
                          CHR 0x1C, CHR 0x1D, CHR 0x1E, CHR 0x1F, CHR 0x20])"

definition upper_letters :: string where
  "upper_letters = ''ABCDEFGHIJKLMNOPQRSTUVWXYZ''"

definition lower_letters :: string where
  "lower_letters = ''abcdefghijklmnopqrstuvwxyz''"

definition is_letter :: "char \<Rightarrow> bool" where
  "is_letter c = (c \<in> set upper_letters \<or> c \<in> set lower_letters)"

definition is_digit :: "char \<Rightarrow> bool" where
  "is_digit c = (c \<in> set ''0123456789'')"

definition lower_char :: "char \<Rightarrow> char" where
  "lower_char c = (case map_of (zip upper_letters lower_letters) c of None \<Rightarrow> c | Some d \<Rightarrow> d)"

definition upper_char :: "char \<Rightarrow> char" where
  "upper_char c = (case map_of (zip lower_letters upper_letters) c of None \<Rightarrow> c | Some d \<Rightarrow> d)"

text \<open>\<open>str.lower()\<close> and \<open>str.upper()\<close>.\<close>

definition lower :: "string \<Rightarrow> string" where
  "lower s = map lower_char s"

definition upper :: "string \<Rightarrow> string" where
  "upper s = map upper_char s"

text \<open>\<open>str.strip()\<close>: leading and trailing whitespace removed.\<close>

definition strip :: "string \<Rightarrow> string" where
  "strip s = rev (dropWhile isspace (rev (dropWhile isspace s)))"

text \<open>\<open>sub in s\<close>: \<open>sub\<close> occurs in \<open>s\<close> as a contiguous substring.\<close>

fun contains :: "string \<Rightarrow> string \<Rightarrow> bool" where
  "contains [] sub = (sub = [])"
| "contains (c # cs) sub = (take (length sub) (c # cs) = sub \<or> contains cs sub)"

text \<open>\<open>str.split()\<close> without argument: the maximal runs of non-whitespace characters.\<close>

fun split_acc :: "string \<Rightarrow> string \<Rightarrow> string list" where
  "split_acc cur [] = (if cur = [] then [] else [cur])"
| "split_acc cur (c # cs) =
     (if isspace c then (if cur = [] then split_acc [] cs else cur # split_acc [] cs)
      else split_acc (cur @ [c]) cs)"

definition split :: "string \<Rightarrow> string list" where
  "split s = split_acc [] s"

text \<open>\<open>" ".join(ws)\<close>.\<close>

fun join_sp :: "string list \<Rightarrow> string" where
  "join_sp [] = []"
| "join_sp [w] = w"
| "join_sp (w # v # ws) = w @ '' '' @ join_sp (v # ws)"

section \<open>Stage 4: network-identifier prefix inference\<close>

definition prefix_table :: "(string \<times> string) list" where
  "prefix_table =
   [(''ARG'', ''Argentina''), (''AUS'', ''Australia''), (''ESP'', ''Spain''),
    (''GBR'', ''United Kingdom''), (''HKG'', ''Hong Kong''), (''HRV'', ''Croatia''),
    (''IND'', ''India''), (''IRL'', ''Ireland''), (''ISR'', ''Israel''),
    (''JPN'', ''Japan''), (''KOR'', ''South Korea''), (''KWT'', ''Kuwait''),
    (''LBN'', ''Lebanon''), (''LTU'', ''Lithuania''), (''LUX'', ''Luxembourg''),
    (''MAC'', ''Macau''), (''MDV'', ''Maldives''), (''MEX'', ''Mexico''),
    (''MMR'', ''Myanmar''), (''MYS'', ''Malaysia''), (''NOR'', ''Norway''),
    (''NPL'', ''Nepal''), (''NZL'', ''New Zealand''), (''OMN'', ''Oman''),
    (''PAN'', ''Panama''), (''POL'', ''Poland''), (''PRI'', ''Puerto Rico''),
    (''QAT'', ''Qatar''), (''ROM'', ''Romania''), (''RUS'', ''Russia''),
    (''SAU'', ''Saudi Arabia''), (''SVK'', ''Slovakia''), (''SWE'', ''Sweden''),
    (''THA'', ''Thailand''), (''TUR'', ''Turkey''), (''USA'', ''United States''),
    (''AAZ'', ''Malta''), (''AFG'', ''Afghanistan''), (''ALB'', ''Albania''),
    (''AUT'', ''Austria''), (''BEL'', ''Belgium''), (''BGD'', ''Bangladesh''),
    (''BGR'', ''Bulgaria''), (''BRA'', ''Brazil''), (''CAN'', ''Canada''),
    (''CHE'', ''Switzerland''), (''CHN'', ''China''), (''CZE'', ''Czech Republic''),
    (''DEU'', ''Germany''), (''DNK'', ''Denmark''), (''EGY'', ''Egypt''),
    (''EST'', ''Estonia''), (''FIN'', ''Finland''), (''FRA'', ''France''),
    (''GHA'', ''Ghana''), (''GRC'', ''Greece''), (''HUN'', ''Hungary''),
    (''IDN'', ''Indonesia''), (''ITA'', ''Italy''), (''LKA'', ''Sri Lanka''),
    (''NLD'', ''Netherlands''), (''PAK'', ''Pakistan''), (''PHL'', ''Philippines''),
    (''PRT'', ''Portugal''), (''SGP'', ''Singapore''), (''ZAF'', ''South Africa''),
    (''LVA'', ''Latvia''), (''BMU'', ''Bermuda'')]"

text \<open>The dict literal \<open>prefix_map\<close>; its keys are pairwise distinct, so the first match of
  the association list is the dict's entry.\<close>

definition prefix_map :: "string \<rightharpoonup> string" where
  "prefix_map = map_of prefix_table"

text \<open>
  \<open>infer_country_from_network_id\<close>. The argument is \<open>None\<close> for a missing value
  (\<open>pd.isna\<close>). The slice \<open>nid[:3]\<close> is \<^term>\<open>take 3\<close>: Python slicing never raises and
  returns the whole text when it is shorter than three characters.
\<close>

definition infer_country_from_network_id :: "string option \<Rightarrow> string option" where
  "infer_country_from_network_id network_id =
     (case network_id of
        None \<Rightarrow> None
      | Some s \<Rightarrow>
          (let nid = upper (strip s);
               prefix = take 3 nid
           in prefix_map prefix))"

section \<open>Stage 2: partner rule heuristics\<close>

definition rules :: "(string \<times> string) list" where
  "rules =
   [(''reliance jio'', ''India''), (''jio infocomm'', ''India''),
    (''bharti airtel'', ''India''), (''airtel'', ''India''),
    (''vodafone essar'', ''India''), (''mtnl'', ''India''),
    (''mahanagar telephone nigam'', ''India''),
    (''tele2 latvia'', ''Latvia''), (''tele 2 latvia'', ''Latvia''),
    (''bermuda'', ''Bermuda'')]"

text \<open>The loop \<open>for k, v in rules.items(): if k in name: return v\<close>.\<close>

fun first_rule :: "(string \<times> string) list \<Rightarrow> string \<Rightarrow> string option" where
  "first_rule [] name = None"
| "first_rule ((k, v) # rs) name = (if contains name k then Some v else first_rule rs name)"

definition infer_country_from_partner :: "string option \<Rightarrow> string option" where
  "infer_country_from_partner partner_name =
     (case partner_name of
        None \<Rightarrow> None
      | Some s \<Rightarrow> first_rule rules (lower (strip s)))"

section \<open>Stage 3: fuzzy country-name extraction\<close>

text \<open>\<open>re.sub(r"[^A-Za-z\s]", " ", s)\<close>: every character that is neither a letter nor
  whitespace is replaced by a blank.\<close>

definition blank_non_letters :: "string \<Rightarrow> string" where
  "blank_non_letters s = map (\<lambda>c. if is_letter c \<or> isspace c then c else CHR '' '') s"

text \<open>
  The country-name lookup (\<open>pycountry.countries.lookup\<close>) is an external collaborator and a
  parameter of the model: \<open>lookup phrase\<close> is \<open>Some name\<close> when the phrase resolves to the
  country called \<open>name\<close> and \<open>None\<close> when the library raises.

  The inner loop \<open>for i in range(0, len(words) - n + 1)\<close> runs over the index list it is
  given; the outer loop \<open>for n in [4, 3, 2, 1]\<close> over the list of span lengths.
\<close>

fun scan_spans :: "(string \<Rightarrow> string option) \<Rightarrow> string list \<Rightarrow> nat \<Rightarrow> nat list \<Rightarrow> string option" where
  "scan_spans lookup words n [] = None"
| "scan_spans lookup words n (i # is) =
     (case lookup (join_sp (take n (drop i words))) of
        Some name \<Rightarrow> Some name
      | None \<Rightarrow> scan_spans lookup words n is)"

fun scan_lengths :: "(string \<Rightarrow> string option) \<Rightarrow> string list \<Rightarrow> nat list \<Rightarrow> string option" where
  "scan_lengths lookup words [] = None"
| "scan_lengths lookup words (n # ns) =
     (case scan_spans lookup words n [0 ..< length words + 1 - n] of
        Some name \<Rightarrow> Some name
      | None \<Rightarrow> scan_lengths lookup words ns)"

definition detect_country_from_partner_text ::
    "(string \<Rightarrow> string option) \<Rightarrow> string option \<Rightarrow> string option" where
  "detect_country_from_partner_text lookup partner_name =
     (case partner_name of
        None \<Rightarrow> None
      | Some s \<Rightarrow>
          (let txt = strip (blank_non_letters s)
           in if txt = [] then None
              else (let words = filter (\<lambda>w. 4 \<le> length w) (split txt)
                    in scan_lengths lookup words [4, 3, 2, 1])))"

section \<open>The inference chain\<close>

text \<open>
  One row of the joined frame, as \<open>infer_chain\<close> reads it: \<open>Country\<close> is the value of the
  left join with the network mapping (\<open>None\<close> when the join found no entry, which pandas
  stores as a missing value), \<open>Partner_Name\<close> and \<open>Network_ID\<close> are text.
\<close>

record joined_row =
  Country :: "string option"
  Partner_Name :: string
  Network_ID :: string

text \<open>\<open>infer_chain\<close>; \<open>pm_dict\<close> is the dict built from the partner mapping table. The
  first test, \<open>pd.notna(c) and str(c).strip() != ""\<close>, holds exactly when the join value is
  present and its trimmed text is not empty.\<close>

definition infer_chain ::
    "(string \<rightharpoonup> string) \<Rightarrow> (string \<Rightarrow> string option) \<Rightarrow> joined_row \<Rightarrow> string option" where
  "infer_chain pm_dict lookup row =
     (let c = (case Country row of None \<Rightarrow> [] | Some v \<Rightarrow> strip v) in
      if c \<noteq> [] then Some c
      else
        (let pname = strip (Partner_Name row);
             nid = strip (Network_ID row);
             c_pm = (if pname \<noteq> []
                     then (case pm_dict (lower pname) of None \<Rightarrow> [] | Some v \<Rightarrow> v)
                     else [])
         in if c_pm \<noteq> [] then Some c_pm
            else
              (let c2 = infer_country_from_partner (Some pname)
               in if c2 \<noteq> None \<and> c2 \<noteq> Some [] then c2
                  else
                    (let c3 = detect_country_from_partner_text lookup (Some pname)
                     in if c3 \<noteq> None \<and> c3 \<noteq> Some [] then c3
                        else infer_country_from_network_id (Some nid)))))"

text \<open>
  The chain as the specification words it: five stages in a fixed order, the first
  non-empty result returned. Stage 0 is the trimmed direct-join value, stage 1 the
  partner-table lookup under the lower-cased trimmed partner name (only for a non-empty
  name), stages 2 to 4 the three source functions above.
\<close>

fun first_nonempty :: "string option list \<Rightarrow> string option" where
  "first_nonempty [] = None"
| "first_nonempty (None # rs) = first_nonempty rs"
| "first_nonempty (Some v # rs) = (if v \<noteq> [] then Some v else first_nonempty rs)"

definition direct_join_stage :: "joined_row \<Rightarrow> string option" where
  "direct_join_stage row = map_option strip (Country row)"

definition partner_table_stage :: "(string \<rightharpoonup> string) \<Rightarrow> joined_row \<Rightarrow> string option" where
  "partner_table_stage pm_dict row =
     (let pname = strip (Partner_Name row) in if pname = [] then None else pm_dict (lower pname))"

definition partner_rule_stage :: "joined_row \<Rightarrow> string option" where
  "partner_rule_stage row = infer_country_from_partner (Some (strip (Partner_Name row)))"

definition fuzzy_text_stage :: "(string \<Rightarrow> string option) \<Rightarrow> joined_row \<Rightarrow> string option" where
  "fuzzy_text_stage lookup row =
     detect_country_from_partner_text lookup (Some (strip (Partner_Name row)))"

definition network_prefix_stage :: "joined_row \<Rightarrow> string option" where
  "network_prefix_stage row = infer_country_from_network_id (Some (strip (Network_ID row)))"

definition chain_spec ::
    "(string \<rightharpoonup> string) \<Rightarrow> (string \<Rightarrow> string option) \<Rightarrow> joined_row \<Rightarrow> string option" where
  "chain_spec pm_dict lookup row =
     first_nonempty [direct_join_stage row, partner_table_stage pm_dict row,
                     partner_rule_stage row, fuzzy_text_stage lookup row,
                     network_prefix_stage row]"

text \<open>
  The fuzzy stage as a search over spans: of a list of kept words, the contiguous spans of
  4, then 3, then 2, then 1 words are tried from left to right, and the first span whose
  phrase the lookup resolves gives the result.
\<close>

definition spans :: "nat \<Rightarrow> string list \<Rightarrow> string list list" where
  "spans n ws = map (\<lambda>i. take n (drop i ws)) [0 ..< length ws + 1 - n]"

definition candidate_spans :: "string list \<Rightarrow> string list list" where
  "candidate_spans ws = spans 4 ws @ spans 3 ws @ spans 2 ws @ spans 1 ws"

fun first_resolved :: "(string \<Rightarrow> string option) \<Rightarrow> string list \<Rightarrow> string option" where
  "first_resolved lookup [] = None"
| "first_resolved lookup (p # ps) =
     (case lookup p of Some name \<Rightarrow> Some name | None \<Rightarrow> first_resolved lookup ps)"

text \<open>
  The first step as the specification words it: the characters that are neither letters nor
  whitespace are stripped, that is, deleted, so that the letters on both sides of such a
  character come together in one word. The rest is split into words and the words of
  length at least 4 are kept.
\<close>

definition strip_non_letters :: "string \<Rightarrow> string" where
  "strip_non_letters s = filter (\<lambda>c. is_letter c \<or> isspace c) s"

definition stripped_words :: "string \<Rightarrow> string list" where
  "stripped_words s = filter (\<lambda>w. 4 \<le> length w) (split (strip_non_letters s))"

definition fuzzy_strip_spec :: "(string \<Rightarrow> string option) \<Rightarrow> string \<Rightarrow> string option" where
  "fuzzy_strip_spec lookup s =
     first_resolved lookup (map join_sp (candidate_spans (stripped_words s)))"

text \<open>
  The first step in the amended wording: every character that is neither a letter nor
  whitespace is replaced by a blank, so that it separates words. The rest is split into
  words and the words of length at least 4 are kept.
\<close>

definition long_words :: "string \<Rightarrow> string list" where
  "long_words s = filter (\<lambda>w. 4 \<le> length w) (split (blank_non_letters s))"

definition fuzzy_spec :: "(string \<Rightarrow> string option) \<Rightarrow> string \<Rightarrow> string option" where
  "fuzzy_spec lookup s = first_resolved lookup (map join_sp (candidate_spans (long_words s)))"

text \<open>A country-name lookup that knows two names, for the examples.\<close>

definition two_countries :: "string \<Rightarrow> string option" where
  "two_countries p =
     (if p = ''Guinea'' then Some ''Guinea'' else if p = ''Oman'' then Some ''Oman'' else None)"

section \<open>Mapping tables: load and merge\<close>

text \<open>
  A mapping table is the two-column frame (key, country), one pair per row, in row order.
  A cell read from the CSV file is \<open>None\<close> when it is empty (pandas reads a missing value)
  and \<open>astype(str)\<close> turns a missing value into the text \<open>nan\<close>.
\<close>

type_synonym mapping_table = "(string \<times> string) list"

datatype error =
    Stop_Mapping_Columns      \<comment> \<open>\<open>st.error\<close> + \<open>st.stop\<close>: the mapping file lacks a required column\<close>
  | Stop_No_Upload            \<comment> \<open>\<open>st.warning\<close> + \<open>st.stop\<close>: no file uploaded\<close>
  | Stop_No_Usable_Data       \<comment> \<open>\<open>st.error\<close> + \<open>st.stop\<close>: no record extracted\<close>
  | TypeError                 \<comment> \<open>\<open>pd.to_numeric\<close> applied to a frame (duplicate column label)\<close>
  | AttributeError            \<comment> \<open>\<open>.str\<close> applied to a frame (duplicate column label)\<close>
  | KeyError                  \<comment> \<open>a column label that is not in the frame\<close>

definition astype_str :: "string option \<Rightarrow> string" where
  "astype_str c = (case c of None \<Rightarrow> ''nan'' | Some s \<Rightarrow> s)"

text \<open>The three lines of \<open>load_mapping\<close> that normalise the country column: trimmed, and
  the placeholders \<open>none\<close> and \<open>nan\<close> (any case) replaced by the empty text.\<close>

definition load_country :: "string option \<Rightarrow> string" where
  "load_country c =
     (let t = strip (astype_str c)
      in if lower t \<in> set [''none'', ''nan''] then [] else t)"

text \<open>The file behind a mapping table: absent or empty (the function then writes and reads
  an empty table), present without the two required columns, or present with its rows.\<close>

datatype mapping_file =
    No_File
  | Bad_Columns
  | Rows "(string option \<times> string option) list"

definition load_mapping :: "mapping_file \<Rightarrow> error + mapping_table" where
  "load_mapping f =
     (case f of
        No_File \<Rightarrow> Inr []
      | Bad_Columns \<Rightarrow> Inl Stop_Mapping_Columns
      | Rows rs \<Rightarrow> Inr (map (\<lambda>(k, c). (strip (astype_str k), load_country c)) rs))"

text \<open>\<open>load_partner_mapping\<close> is the same code on the partner file.\<close>

definition load_partner_mapping :: "mapping_file \<Rightarrow> error + mapping_table" where
  "load_partner_mapping f =
     (case f of
        No_File \<Rightarrow> Inr []
      | Bad_Columns \<Rightarrow> Inl Stop_Mapping_Columns
      | Rows rs \<Rightarrow> Inr (map (\<lambda>(k, c). (strip (astype_str k), load_country c)) rs))"

text \<open>\<open>drop_duplicates(subset=[key], keep="last")\<close>: a row stays when no later row has its
  key.\<close>

fun drop_duplicates_last :: "mapping_table \<Rightarrow> mapping_table" where
  "drop_duplicates_last [] = []"
| "drop_duplicates_last ((k, c) # tbl) =
     (if k \<in> set (map fst tbl) then drop_duplicates_last tbl
      else (k, c) # drop_duplicates_last tbl)"

text \<open>\<open>sort_values(key column)\<close>: ascending by key; Python compares strings
  lexicographically by character code, which is the order of \<^typ>\<open>string\<close> here.\<close>

definition sort_values :: "mapping_table \<Rightarrow> mapping_table" where
  "sort_values tbl = sort_key fst tbl"

text \<open>The result of a merge: the table returned, and the table written to the CSV file
  (\<open>None\<close> when \<open>to_csv\<close> is not reached).\<close>

record save_result =
  returned :: mapping_table
  written :: "mapping_table option"

definition save_new_mappings_to_csv :: "mapping_table \<Rightarrow> mapping_table \<Rightarrow> save_result" where
  "save_new_mappings_to_csv mapping_df new_pairs_df =
     (if new_pairs_df = [] then \<lparr>returned = mapping_df, written = None\<rparr>
      else
        (let trimmed = map (\<lambda>(k, c). (strip k, strip c)) new_pairs_df;
             kept = filter (\<lambda>(k, c). k \<noteq> [] \<and> c \<noteq> []) trimmed
         in if kept = [] then \<lparr>returned = mapping_df, written = None\<rparr>
            else
              (let combined = sort_values (drop_duplicates_last (mapping_df @ kept))
               in \<lparr>returned = combined, written = Some combined\<rparr>)))"

definition save_partner_mappings :: "mapping_table \<Rightarrow> mapping_table \<Rightarrow> save_result" where
  "save_partner_mappings pm_df new_df =
     (if new_df = [] then \<lparr>returned = pm_df, written = None\<rparr>
      else
        (let trimmed = map (\<lambda>(k, c). (strip k, strip c)) new_df;
             kept = filter (\<lambda>(k, c). k \<noteq> [] \<and> c \<noteq> []) trimmed
         in if kept = [] then \<lparr>returned = pm_df, written = None\<rparr>
            else
              (let combined = sort_values (drop_duplicates_last (pm_df @ kept))
               in \<lparr>returned = combined, written = Some combined\<rparr>)))"

text \<open>The merge as the specification words it: the qualifying pairs of a batch, and the
  entry a key has in a list of rows when the last occurrence wins.\<close>

definition qualifying :: "mapping_table \<Rightarrow> mapping_table" where
  "qualifying batch = filter (\<lambda>(k, c). k \<noteq> [] \<and> c \<noteq> []) (map (\<lambda>(k, c). (strip k, strip c)) batch)"

definition last_entry :: "mapping_table \<Rightarrow> string \<rightharpoonup> string" where
  "last_entry tbl = map_of (rev tbl)"

section \<open>The pipeline around the chain\<close>

text \<open>The left join of the parsed records, given as (partner name, network id), with the
  network table: one joined row per matching table row, and one row with a missing country
  when no table row has the key.\<close>

definition left_join :: "(string \<times> string) list \<Rightarrow> mapping_table \<Rightarrow> joined_row list" where
  "left_join parsed mapping =
     concat (map (\<lambda>(p, n).
        (case filter (\<lambda>(k, c). k = n) mapping of
           [] \<Rightarrow> [\<lparr>Country = None, Partner_Name = p, Network_ID = n\<rparr>]
         | ms \<Rightarrow> map (\<lambda>(k, c). \<lparr>Country = Some c, Partner_Name = p, Network_ID = n\<rparr>) ms))
        parsed)"

text \<open>\<open>pm_dict = dict(zip(lower-cased partner names, countries))\<close>: a later row replaces an
  earlier one with the same lower-cased name.\<close>

definition pm_dict_of :: "mapping_table \<Rightarrow> (string \<rightharpoonup> string)" where
  "pm_dict_of partner_map = map_of (rev (map (\<lambda>(k, c). (lower k, c)) partner_map))"

text \<open>The column \<open>Country_inferred\<close>: the chain's result with a missing value replaced by
  the empty text, trimmed, and the placeholders \<open>none\<close> and \<open>nan\<close> emptied.\<close>

definition Country_inferred ::
    "(string \<rightharpoonup> string) \<Rightarrow> (string \<Rightarrow> string option) \<Rightarrow> joined_row \<Rightarrow> string" where
  "Country_inferred pm_dict lookup row =
     (let v = (case infer_chain pm_dict lookup row of None \<Rightarrow> [] | Some s \<Rightarrow> s);
          t = strip v
      in if lower t \<in> set [''none'', ''nan''] then [] else t)"

text \<open>\<open>drop_duplicates()\<close> on whole rows keeps the first occurrence of each row.\<close>

fun drop_duplicates :: "'a list \<Rightarrow> 'a list" where
  "drop_duplicates [] = []"
| "drop_duplicates (x # xs) = x # drop_duplicates (filter (\<lambda>y. y \<noteq> x) xs)"

text \<open>The automatic save of the inferred network pairs; \<open>inferred\<close> is the column pair
  (Network ID, Country_inferred) of the joined frame.\<close>

definition network_new_pairs :: "mapping_table \<Rightarrow> (string \<times> string) list \<Rightarrow> mapping_table" where
  "network_new_pairs mapping inferred =
     (let new_pairs = drop_duplicates inferred;
          mapped_set = set (map (\<lambda>(k, c). strip k) mapping);
          new_pairs = filter (\<lambda>(k, c). strip k \<notin> mapped_set) new_pairs
      in filter (\<lambda>(k, c). strip c \<noteq> []) new_pairs)"

definition auto_save_network :: "mapping_table \<Rightarrow> (string \<times> string) list \<Rightarrow> save_result" where
  "auto_save_network mapping inferred =
     (let new_pairs = network_new_pairs mapping inferred
      in if new_pairs \<noteq> [] then save_new_mappings_to_csv mapping new_pairs
         else \<lparr>returned = mapping, written = None\<rparr>)"

text \<open>The manual save behind the button: the edited rows (Network ID, Country), trimmed and
  filtered; an empty batch is refused with a message, otherwise it is merged.\<close>

definition manual_save_network :: "mapping_table \<Rightarrow> (string \<times> string) list \<Rightarrow> save_result option" where
  "manual_save_network mapping edited =
     (let to_save = filter (\<lambda>(k, c). k \<noteq> [] \<and> c \<noteq> []) (map (\<lambda>(k, c). (strip k, strip c)) edited)
      in if to_save = [] then None
         else Some (save_new_mappings_to_csv mapping to_save))"

text \<open>What \<open>load_mapping\<close> and the \<open>Country_inferred\<close> column guarantee of a country text:
  it is trimmed, and it is not one of the placeholders \<open>none\<close> and \<open>nan\<close>.\<close>

definition normalized :: "string \<Rightarrow> bool" where
  "normalized c = (strip c = c \<and> (c = [] \<or> lower c \<notin> set [''none'', ''nan'']))"

text \<open>
  The contract of a merge as the specification words it, for a table, a batch and the
  result of the call: with no qualifying pair the table is returned unchanged and nothing
  is written; otherwise the returned table is the one written, its keys are sorted and
  unique, they are the keys of the table and of the qualifying pairs, every key has the
  entry of its last occurrence in the table followed by the qualifying pairs, and a
  qualifying key has the entry of its last qualifying pair.
\<close>

definition merge_spec :: "mapping_table \<Rightarrow> mapping_table \<Rightarrow> save_result \<Rightarrow> bool" where
  "merge_spec table batch r =
     (let q = qualifying batch in
      if q = [] then returned r = table \<and> written r = None
      else written r = Some (returned r) \<and>
           sorted (map fst (returned r)) \<and>
           distinct (map fst (returned r)) \<and>
           set (map fst (returned r)) = set (map fst table) \<union> set (map fst q) \<and>
           (\<forall>k \<in> set (map fst (table @ q)). map_of (returned r) k = last_entry (table @ q) k) \<and>
           (\<forall>k \<in> set (map fst q). map_of (returned r) k = last_entry q k))"

section \<open>Worksheets as frames\<close>

text \<open>
  A cell of a worksheet is missing, a number or text. Numbers are modelled as reals: the
  rounding of floating-point sums is abstracted away, and so are infinities. A frame has
  its column labels in order and its rows; a row gives the cell at each column position
  (positions beyond the labels are never read). Labels may repeat: cleaning and renaming
  can make two labels equal, and pandas then answers \<open>df[label]\<close> with a frame instead of
  a series.
\<close>

datatype cell = Missing | Num real | Txt string

record frame =
  columns :: "string list"
  rows :: "(nat \<Rightarrow> cell) list"

text \<open>The positions of the columns with a given label.\<close>

definition positions :: "string list \<Rightarrow> string \<Rightarrow> nat list" where
  "positions cols name = filter (\<lambda>i. cols ! i = name) [0 ..< length cols]"

text \<open>\<open>df[name] = values\<close> with the values computed row by row from the frame before
  the assignment: an existing label is overwritten in place, a new one is appended.\<close>

definition assign :: "frame \<Rightarrow> string \<Rightarrow> ((nat \<Rightarrow> cell) \<Rightarrow> cell) \<Rightarrow> frame" where
  "assign df name f =
     (if name \<in> set (columns df)
      then \<lparr>columns = columns df,
            rows = map (\<lambda>r i. if i < length (columns df) \<and> columns df ! i = name then f r else r i)
                       (rows df)\<rparr>
      else \<lparr>columns = columns df @ [name],
            rows = map (\<lambda>r. r(length (columns df) := f r)) (rows df)\<rparr>)"

text \<open>
  \<open>pd.to_numeric(..., errors="coerce")\<close> on one cell, then \<open>fillna(0)\<close>. Parsing a text
  as a number is the library's business and a parameter of the model: \<open>parse s\<close> is
  \<open>None\<close> when the text is not a number.
\<close>

definition to_numeric :: "(string \<Rightarrow> real option) \<Rightarrow> cell \<Rightarrow> real option" where
  "to_numeric parse c = (case c of Missing \<Rightarrow> None | Num x \<Rightarrow> Some x | Txt s \<Rightarrow> parse s)"

definition fillna0 :: "real option \<Rightarrow> real" where
  "fillna0 v = (case v of None \<Rightarrow> 0 | Some x \<Rightarrow> x)"

definition coerce :: "(string \<Rightarrow> real option) \<Rightarrow> cell \<Rightarrow> real" where
  "coerce parse c = fillna0 (to_numeric parse c)"

text \<open>\<open>pd.to_numeric(df[name], errors="coerce").fillna(0)\<close>: the label must denote one
  column; with several, \<open>df[name]\<close> is a frame and \<open>to_numeric\<close> raises.\<close>

definition numeric_series ::
    "(string \<Rightarrow> real option) \<Rightarrow> frame \<Rightarrow> string \<Rightarrow> error + ((nat \<Rightarrow> cell) \<Rightarrow> cell)" where
  "numeric_series parse df name =
     (case positions (columns df) name of
        [] \<Rightarrow> Inl KeyError
      | [i] \<Rightarrow> Inr (\<lambda>r. Num (coerce parse (r i)))
      | _ \<Rightarrow> Inl TypeError)"

section \<open>Column normalisation\<close>

text \<open>The header as \<open>standardize_columns\<close> first rewrites it, the normal form \<open>norm\<close> (here \<open>norm_text\<close>), and
  the regular expression of the daily volume columns,
  \<open>^volume\s*\(kb\)(\.\d+)?$\<close> without regard to case.\<close>

definition clean_header :: "string \<Rightarrow> string" where
  "clean_header c = map (\<lambda>x. if x = CHR 0x0A then CHR '' '' else x) (strip c)"

definition norm_text :: "string \<Rightarrow> string" where
  "norm_text s = filter (\<lambda>c. \<not> isspace c) (lower (strip s))"

definition daily_vol_match :: "string \<Rightarrow> bool" where
  "daily_vol_match s =
     (let l = lower s in
      take 6 l = ''volume'' \<and>
      (let r = dropWhile isspace (drop 6 l) in
       take 4 r = ''(kb)'' \<and>
       (case drop 4 r of
          [] \<Rightarrow> True
        | d # ds \<Rightarrow> d = CHR ''.'' \<and> ds \<noteq> [] \<and> list_all is_digit ds)))"

text \<open>The variables of the scanning loop.\<close>

record scan_state =
  rename_map :: "string \<rightharpoonup> string"
  total_volume_col :: "string option"
  total_gprs_col :: "string option"
  total_voice_col :: "string option"
  total_duration_col :: "string option"
  daily_volume_cols :: "string list"

definition init_scan :: scan_state where
  "init_scan = \<lparr>rename_map = Map.empty, total_volume_col = None, total_gprs_col = None,
                total_voice_col = None, total_duration_col = None, daily_volume_cols = []\<rparr>"

text \<open>One pass of the loop body \<open>for c in df.columns\<close>.\<close>

definition scan_column :: "scan_state \<Rightarrow> string \<Rightarrow> scan_state" where
  "scan_column st c =
     (let c_clean = strip c;
          lc = norm_text c_clean
      in if contains lc ''partnername''
           then st\<lparr>rename_map := (rename_map st)(c \<mapsto> ''Partner Name'')\<rparr>
         else if contains lc ''networkid''
           then st\<lparr>rename_map := (rename_map st)(c \<mapsto> ''Network ID'')\<rparr>
         else if lc = ''totalvolume(kb)'' \<or> (contains lc ''total'' \<and> contains lc ''volume(kb)'')
           then st\<lparr>total_volume_col := Some c\<rparr>
         else if lc = ''totalduration(min)''
                 \<or> (contains lc ''total'' \<and> contains lc ''duration(min)'')
                 \<or> (contains lc ''totalduration'' \<and> contains lc ''min'')
           then st\<lparr>total_duration_col := Some c\<rparr>
         else if (contains lc ''totalgprs'' \<and> contains lc ''amount'') \<or> contains lc ''totalgprsamount''
           then st\<lparr>total_gprs_col := Some c\<rparr>
         else if (contains lc ''totalvoice'' \<and> contains lc ''amount'') \<or> contains lc ''totalvoiceamount''
           then st\<lparr>total_voice_col := Some c\<rparr>
         else if daily_vol_match c_clean
           then st\<lparr>daily_volume_cols := daily_volume_cols st @ [c]\<rparr>
         else st)"

text \<open>\<open>df[daily_volume_cols]\<close>: for each label of the list, every column with that label.\<close>

definition select_positions :: "string list \<Rightarrow> string list \<Rightarrow> nat list" where
  "select_positions cols names = concat (map (positions cols) names)"

text \<open>The block that sets \<open>Total Volume(KB)\<close>: the total column when there is one, else
  the row-wise sum of the daily columns, else zero.\<close>

definition set_total_volume :: "(string \<Rightarrow> real option) \<Rightarrow> scan_state \<Rightarrow> frame \<Rightarrow> error + frame" where
  "set_total_volume parse st df =
     (case total_volume_col st of
        Some c \<Rightarrow>
          (case numeric_series parse df c of
             Inl e \<Rightarrow> Inl e
           | Inr f \<Rightarrow> Inr (assign df ''Total Volume(KB)'' f))
      | None \<Rightarrow>
          if daily_volume_cols st \<noteq> []
          then Inr (assign df ''Total Volume(KB)''
                 (\<lambda>r. Num (sum_list (map (\<lambda>i. coerce parse (r i))
                                         (select_positions (columns df) (daily_volume_cols st))))))
          else Inr (assign df ''Total Volume(KB)'' (\<lambda>r. Num 0)))"

text \<open>The three blocks that set the duration and the two amounts have one shape: the
  total column when there is one, else zero.\<close>

definition set_total ::
    "(string \<Rightarrow> real option) \<Rightarrow> string option \<Rightarrow> string \<Rightarrow> frame \<Rightarrow> error + frame" where
  "set_total parse total_col name df =
     (case total_col of
        Some c \<Rightarrow>
          (case numeric_series parse df c of
             Inl e \<Rightarrow> Inl e
           | Inr f \<Rightarrow> Inr (assign df name f))
      | None \<Rightarrow> Inr (assign df name (\<lambda>r. Num 0)))"

definition standardize_columns :: "(string \<Rightarrow> real option) \<Rightarrow> frame \<Rightarrow> error + frame" where
  "standardize_columns parse df0 =
     (let cols = map clean_header (columns df0);
          st = foldl scan_column init_scan cols;
          df = \<lparr>columns = map (\<lambda>c. case rename_map st c of None \<Rightarrow> c | Some n \<Rightarrow> n) cols,
                rows = rows df0\<rparr>
      in case set_total_volume parse st df of
           Inl e \<Rightarrow> Inl e
         | Inr df1 \<Rightarrow>
             (case set_total parse (total_duration_col st) ''Total Duration(min)'' df1 of
                Inl e \<Rightarrow> Inl e
              | Inr df2 \<Rightarrow>
                  (case set_total parse (total_gprs_col st) ''Total GPRS Amount(USD)'' df2 of
                     Inl e \<Rightarrow> Inl e
                   | Inr df3 \<Rightarrow>
                       set_total parse (total_voice_col st) ''Total Voice Amount(USD)'' df3)))"

section \<open>Workbook parsing\<close>

text \<open>\<open>re.search(r"(19\d{2}|20\d{2})", name)\<close>: the leftmost four-digit token 19xx or
  20xx; a name of fewer than four characters has none.\<close>

definition digit_val :: "char \<Rightarrow> nat" where
  "digit_val c =
     (case map_of (zip ''0123456789'' [0, 1, 2, 3, 4, 5, 6, 7, 8, 9]) c of
        None \<Rightarrow> 0
      | Some n \<Rightarrow> n)"

fun safe_year_from_filename :: "string \<Rightarrow> nat option" where
  "safe_year_from_filename (a # b # d # e # rest) =
     (if ((a = CHR ''1'' \<and> b = CHR ''9'') \<or> (a = CHR ''2'' \<and> b = CHR ''0''))
         \<and> is_digit d \<and> is_digit e
      then Some (1000 * digit_val a + 100 * digit_val b + 10 * digit_val d + digit_val e)
      else safe_year_from_filename (b # d # e # rest))"
| "safe_year_from_filename name = None"

text \<open>One extracted record: the six needed columns, the year and the sheet name.\<close>

record usage_record =
  partner_name :: cell
  network_id :: cell
  total_volume_kb :: cell
  total_duration_min :: cell
  total_gprs_amount_usd :: cell
  total_voice_amount_usd :: cell
  year :: "nat option"
  month :: string

definition needed :: "string list" where
  "needed = [''Partner Name'', ''Network ID'', ''Total Volume(KB)'', ''Total Duration(min)'',
             ''Total GPRS Amount(USD)'', ''Total Voice Amount(USD)'']"

definition reserved_sheet :: "string \<Rightarrow> bool" where
  "reserved_sheet sheet = (lower (strip sheet) \<in> set [''total'', ''sheet1''])"

text \<open>
  The row filter on an identifier cell: \<open>astype("string").str.strip().fillna("")\<close> is not
  empty and its lower case is neither \<open>total\<close> nor \<open>grand total\<close>. A number prints as a
  non-empty numeral, so a numeric identifier passes.
\<close>

definition ident_ok :: "cell \<Rightarrow> bool" where
  "ident_ok c =
     (case c of
        Missing \<Rightarrow> False
      | Num x \<Rightarrow> True
      | Txt s \<Rightarrow> strip s \<noteq> [] \<and> lower (strip s) \<notin> set [''total'', ''grand total''])"

datatype sheet_outcome = Skipped | Extracted "usage_record list"

text \<open>
  The body of the loop over the sheets, for one sheet: its name and the frame
  \<open>read_excel(..., skiprows=1)\<close> returns. A label that denotes several columns makes
  \<open>.str\<close> (identifier columns) or \<open>to_numeric\<close> (numeric columns) raise.
\<close>

definition parse_sheet ::
    "(string \<Rightarrow> real option) \<Rightarrow> nat option \<Rightarrow> string \<times> frame \<Rightarrow> error + sheet_outcome" where
  "parse_sheet parse yr sheet_df =
     (let sheet = fst sheet_df in
      if reserved_sheet sheet then Inr Skipped
      else
        (case standardize_columns parse (snd sheet_df) of
           Inl e \<Rightarrow> Inl e
         | Inr df \<Rightarrow>
             if list_ex (\<lambda>col. col \<notin> set (columns df)) needed then Inr Skipped
             else
               (case (positions (columns df) ''Partner Name'',
                      positions (columns df) ''Network ID'') of
                  ([p], [n]) \<Rightarrow>
                    (let kept = filter (\<lambda>r. ident_ok (r p) \<and> ident_ok (r n)) (rows df)
                     in case (positions (columns df) ''Total Volume(KB)'',
                              positions (columns df) ''Total Duration(min)'',
                              positions (columns df) ''Total GPRS Amount(USD)'',
                              positions (columns df) ''Total Voice Amount(USD)'') of
                          ([v], [d], [g], [w]) \<Rightarrow>
                            Inr (Extracted (map (\<lambda>r.
                              \<lparr>partner_name = r p, network_id = r n,
                               total_volume_kb = Num (coerce parse (r v)),
                               total_duration_min = Num (coerce parse (r d)),
                               total_gprs_amount_usd = Num (coerce parse (r g)),
                               total_voice_amount_usd = Num (coerce parse (r w)),
                               year = yr, month = sheet\<rparr>) kept))
                        | _ \<Rightarrow> Inl TypeError)
                | _ \<Rightarrow> Inl AttributeError)))"

text \<open>The loop over the sheets collects the extracted row sets; the first exception ends
  it.\<close>

fun parse_sheets ::
    "(string \<Rightarrow> real option) \<Rightarrow> nat option \<Rightarrow> (string \<times> frame) list \<Rightarrow> error + usage_record list list" where
  "parse_sheets parse yr [] = Inr []"
| "parse_sheets parse yr (s # ss) =
     (case parse_sheet parse yr s of
        Inl e \<Rightarrow> Inl e
      | Inr Skipped \<Rightarrow> parse_sheets parse yr ss
      | Inr (Extracted rs) \<Rightarrow>
          (case parse_sheets parse yr ss of
             Inl e \<Rightarrow> Inl e
           | Inr row_sets \<Rightarrow> Inr (rs # row_sets)))"

text \<open>\<open>parse_workbook\<close> on an opened workbook (the list of its sheets) and its file name.\<close>

definition parse_workbook ::
    "(string \<Rightarrow> real option) \<Rightarrow> (string \<times> frame) list \<Rightarrow> string \<Rightarrow> error + usage_record list" where
  "parse_workbook parse workbook filename =
     (case parse_sheets parse (safe_year_from_filename filename) workbook of
        Inl e \<Rightarrow> Inl e
      | Inr row_sets \<Rightarrow> if row_sets = [] then Inr [] else Inr (concat row_sets))"

text \<open>
  The parse section of the script: without an upload it stops with a warning; otherwise
  every file is parsed and tagged with its name, the parts are concatenated, and an empty
  result stops the script with the error message.
\<close>

fun parse_files ::
    "(string \<Rightarrow> real option) \<Rightarrow> ((string \<times> frame) list \<times> string) list
       \<Rightarrow> error + (usage_record \<times> string) list list" where
  "parse_files parse [] = Inr []"
| "parse_files parse (uf # ufs) =
     (case parse_workbook parse (fst uf) (snd uf) of
        Inl e \<Rightarrow> Inl e
      | Inr part \<Rightarrow>
          (case parse_files parse ufs of
             Inl e \<Rightarrow> Inl e
           | Inr parts \<Rightarrow> Inr (map (\<lambda>r. (r, snd uf)) part # parts)))"

definition raw_all ::
    "(string \<Rightarrow> real option) \<Rightarrow> ((string \<times> frame) list \<times> string) list
       \<Rightarrow> error + (usage_record \<times> string) list" where
  "raw_all parse uploaded_files =
     (if uploaded_files = [] then Inl Stop_No_Upload
      else
        (case parse_files parse uploaded_files of
           Inl e \<Rightarrow> Inl e
         | Inr all_data \<Rightarrow>
             if concat all_data = [] then Inl Stop_No_Usable_Data
             else Inr (concat all_data)))"

text \<open>
  The derived total as the specification words it. A header is a total-volume header when
  its normal form is \<open>totalvolume(kb)\<close> or contains both \<open>total\<close> and \<open>volume(kb)\<close>; it
  is a daily header when it matches the daily pattern. The derived total of a row is the
  sum of its coerced cells in the daily columns.
\<close>

definition is_total_volume_header :: "string \<Rightarrow> bool" where
  "is_total_volume_header h =
     (let lc = norm_text (strip (clean_header h))
      in lc = ''totalvolume(kb)'' \<or> (contains lc ''total'' \<and> contains lc ''volume(kb)''))"

definition is_daily_header :: "string \<Rightarrow> bool" where
  "is_daily_header h = daily_vol_match (strip (clean_header h))"

definition daily_positions :: "string list \<Rightarrow> nat list" where
  "daily_positions headers = filter (\<lambda>i. is_daily_header (headers ! i)) [0 ..< length headers]"

definition daily_sum :: "(string \<Rightarrow> real option) \<Rightarrow> string list \<Rightarrow> (nat \<Rightarrow> cell) \<Rightarrow> real" where
  "daily_sum parse headers r = sum_list (map (\<lambda>i. coerce parse (r i)) (daily_positions headers))"

text \<open>The branch of the scanning loop's body that a cleaned header takes.\<close>

datatype header_kind =
    Partner_Header | Network_Header | Volume_Header | Duration_Header
  | Gprs_Header | Voice_Header | Daily_Header | Other_Header

definition header_kind_of :: "string \<Rightarrow> header_kind" where
  "header_kind_of c =
     (let c_clean = strip c;
          lc = norm_text c_clean
      in if contains lc ''partnername'' then Partner_Header
         else if contains lc ''networkid'' then Network_Header
         else if lc = ''totalvolume(kb)'' \<or> (contains lc ''total'' \<and> contains lc ''volume(kb)'')
           then Volume_Header
         else if lc = ''totalduration(min)''
                 \<or> (contains lc ''total'' \<and> contains lc ''duration(min)'')
                 \<or> (contains lc ''totalduration'' \<and> contains lc ''min'')
           then Duration_Header
         else if (contains lc ''totalgprs'' \<and> contains lc ''amount'') \<or> contains lc ''totalgprsamount''
           then Gprs_Header
         else if (contains lc ''totalvoice'' \<and> contains lc ''amount'') \<or> contains lc ''totalvoiceamount''
           then Voice_Header
         else if daily_vol_match c_clean then Daily_Header
         else Other_Header)"


text \<open>Two notions for following a column through the assignments: every cell under a
  label holds the value given for its row, and a step leaves the columns under a label as
  they were.\<close>

definition column_holds :: "frame \<Rightarrow> string \<Rightarrow> (nat \<Rightarrow> cell) \<Rightarrow> bool" where
  "column_holds df name g =
     (name \<in> set (columns df) \<and>
      (\<forall>k < length (rows df). \<forall>j \<in> set (positions (columns df) name). (rows df ! k) j = g k))"

definition column_kept :: "string \<Rightarrow> frame \<Rightarrow> frame \<Rightarrow> bool" where
  "column_kept name df df' =
     (length (rows df') = length (rows df) \<and>
      set (positions (columns df') name) = set (positions (columns df) name) \<and>
      (\<forall>k < length (rows df). \<forall>j \<in> set (positions (columns df) name).
          (rows df' ! k) j = (rows df ! k) j))"

section \<open>Facts about the text primitives\<close>

lemma length_strip_le: "length (strip s) \<le> length s"
proof -
  have "length (strip s) \<le> length (dropWhile isspace s)"
    unfolding strip_def using length_dropWhile_le [of isspace "rev (dropWhile isspace s)"] by simp
  also have "\<dots> \<le> length s" by (rule length_dropWhile_le)
  finally show ?thesis .
qed

lemma length_upper: "length (upper s) = length s"
  by (simp add: upper_def)

section \<open>Network-identifier prefix inference\<close>

lemma prefix_keys_length: "\<forall>k \<in> set (map fst prefix_table). length k = 3"
  by code_simp

lemma prefix_values_nonempty: "\<forall>v \<in> set (map snd prefix_table). v \<noteq> []"
  by code_simp

lemma prefix_map_Some_key: "prefix_map k = Some v \<Longrightarrow> length k = 3 \<and> v \<noteq> []"
proof -
  assume "prefix_map k = Some v"
  then have "(k, v) \<in> set prefix_table" unfolding prefix_map_def by (rule map_of_SomeD)
  then have "k \<in> set (map fst prefix_table)" "v \<in> set (map snd prefix_table)" by force+
  then show ?thesis using prefix_keys_length prefix_values_nonempty by blast
qed

text \<open>
  Claim C9. Prefix inference has no failing path: a missing value and the empty string
  give no country, and an identifier shorter than three characters is looked up in the
  prefix table under its whole trimmed, upper-cased text (the slice takes everything), so
  it yields a country exactly when that text is a key of the table.
\<close>

theorem infer_country_from_network_id_short:
  "infer_country_from_network_id None = None \<and>
   infer_country_from_network_id (Some []) = None \<and>
   (length s < 3 \<longrightarrow>
      infer_country_from_network_id (Some s) = map_of prefix_table (upper (strip s)))"
proof (intro conjI impI)
  show "infer_country_from_network_id None = None"
    by (simp add: infer_country_from_network_id_def)
  show "infer_country_from_network_id (Some []) = None"
    by code_simp
next
  assume short: "length s < 3"
  have "length (upper (strip s)) < 3"
    using short length_strip_le [of s] by (simp add: length_upper)
  then show "infer_country_from_network_id (Some s) = map_of prefix_table (upper (strip s))"
    by (simp add: infer_country_from_network_id_def prefix_map_def)
qed

theorem infer_country_from_network_id_short_witness:
  "length ''in'' < 3 \<and>
   infer_country_from_network_id (Some ''in'') = map_of prefix_table ''IN''"
proof -
  have h: "upper (strip ''in'') = ''IN''" by code_simp
  show ?thesis using infer_country_from_network_id_short [of "''in''"] h by simp
qed

text \<open>Every key of the table has three characters, so a shorter identifier never
  resolves.\<close>

lemma network_id_short_none:
  "length s < 3 \<Longrightarrow> infer_country_from_network_id (Some s) = None"
proof (rule ccontr)
  assume short: "length s < 3" and "infer_country_from_network_id (Some s) \<noteq> None"
  then obtain c where "infer_country_from_network_id (Some s) = Some c" by auto
  then have "prefix_map (take 3 (upper (strip s))) = Some c"
    by (simp add: infer_country_from_network_id_def)
  then have "length (take 3 (upper (strip s))) = 3" using prefix_map_Some_key by blast
  then show False using short length_strip_le [of s] by (simp add: length_upper)
qed

section \<open>The order of the inference chain\<close>

lemma network_prefix_stage_nonempty: "network_prefix_stage row \<noteq> Some []"
  unfolding network_prefix_stage_def infer_country_from_network_id_def
  using prefix_map_Some_key by (auto simp: Let_def)

lemma first_nonempty_five:
  "s4 \<noteq> Some [] \<Longrightarrow>
   first_nonempty [s0, s1, s2, s3, s4] =
     (let c = (case s0 of None \<Rightarrow> [] | Some v \<Rightarrow> v) in
      if c \<noteq> [] then Some c
      else (let c_pm = (case s1 of None \<Rightarrow> [] | Some v \<Rightarrow> v)
            in if c_pm \<noteq> [] then Some c_pm
               else if s2 \<noteq> None \<and> s2 \<noteq> Some [] then s2
               else if s3 \<noteq> None \<and> s3 \<noteq> Some [] then s3
               else s4))"
  by (cases s0; cases s1; cases s2; cases s3; cases s4) (simp_all add: Let_def)

lemma infer_chain_stages:
  "infer_chain pm_dict lookup row =
     (let c = (case direct_join_stage row of None \<Rightarrow> [] | Some v \<Rightarrow> v) in
      if c \<noteq> [] then Some c
      else (let c_pm = (case partner_table_stage pm_dict row of None \<Rightarrow> [] | Some v \<Rightarrow> v)
            in if c_pm \<noteq> [] then Some c_pm
               else if partner_rule_stage row \<noteq> None \<and> partner_rule_stage row \<noteq> Some []
                    then partner_rule_stage row
               else if fuzzy_text_stage lookup row \<noteq> None \<and> fuzzy_text_stage lookup row \<noteq> Some []
                    then fuzzy_text_stage lookup row
               else network_prefix_stage row))"
  unfolding infer_chain_def direct_join_stage_def partner_table_stage_def
    partner_rule_stage_def fuzzy_text_stage_def network_prefix_stage_def Let_def
  by (cases "Country row") simp_all

text \<open>
  Claim C1. The resolver applies its stages in the fixed order direct join, partner table,
  partner rules, fuzzy country-name extraction, network prefix, and returns the first
  non-empty result. A record whose direct-join country is non-empty after trimming gets
  that trimmed value whatever the partner table, the country-name lookup, the partner name
  and the network identifier are: none of the later stages is consulted.
\<close>

theorem infer_chain_stage_order:
  "infer_chain pm_dict lookup row = chain_spec pm_dict lookup row \<and>
   (Country row = Some c \<and> strip c \<noteq> [] \<longrightarrow>
      (\<forall>pm' lookup' p n.
         infer_chain pm' lookup' (row\<lparr>Partner_Name := p, Network_ID := n\<rparr>) = Some (strip c)))"
proof (intro conjI impI allI)
  show "infer_chain pm_dict lookup row = chain_spec pm_dict lookup row"
    unfolding chain_spec_def infer_chain_stages
    by (rule first_nonempty_five [OF network_prefix_stage_nonempty, symmetric])
next
  fix pm' lookup' p n
  assume "Country row = Some c \<and> strip c \<noteq> []"
  then show "infer_chain pm' lookup' (row\<lparr>Partner_Name := p, Network_ID := n\<rparr>) = Some (strip c)"
    by (simp add: infer_chain_def)
qed

theorem infer_chain_stage_order_witness:
  "strip '' India '' \<noteq> [] \<and>
   infer_chain [''bermuda telecom'' \<mapsto> ''Bermuda''] (\<lambda>s. Some ''France'')
     \<lparr>Country = Some '' India '', Partner_Name = ''Bermuda Telecom'', Network_ID = ''GBR01''\<rparr>
   = Some ''India''"
proof -
  have h: "strip '' India '' = ''India''" by code_simp
  show ?thesis
    using infer_chain_stage_order [of "[''bermuda telecom'' \<mapsto> ''Bermuda'']" "\<lambda>s. Some ''France''"
        "\<lparr>Country = Some '' India '', Partner_Name = ''Bermuda Telecom'', Network_ID = ''GBR01''\<rparr>"
        "'' India ''"] h
    by simp
qed

section \<open>Fuzzy country-name extraction\<close>

lemma split_acc_spaces:
  "\<forall>c \<in> set t. isspace c \<Longrightarrow> split_acc cur t = (if cur = [] then [] else [cur])"
  by (induction t arbitrary: cur) auto

lemma split_acc_append_spaces:
  "\<forall>c \<in> set t. isspace c \<Longrightarrow> split_acc cur (s @ t) = split_acc cur s"
  by (induction s arbitrary: cur) (auto simp: split_acc_spaces)

lemma split_acc_dropWhile: "split_acc [] (dropWhile isspace s) = split_acc [] s"
  by (induction s) auto

lemma strip_decompose:
  "\<exists>t. dropWhile isspace s = strip s @ t \<and> (\<forall>c \<in> set t. isspace c)"
proof -
  let ?d = "dropWhile isspace s"
  let ?t = "rev (takeWhile isspace (rev ?d))"
  have "strip s @ ?t = rev (takeWhile isspace (rev ?d) @ dropWhile isspace (rev ?d))"
    unfolding strip_def rev_append ..
  also have "\<dots> = ?d" by simp
  finally have "?d = strip s @ ?t" by simp
  moreover have "\<forall>c \<in> set ?t. isspace c"
    by (auto dest: set_takeWhileD)
  ultimately show ?thesis by blast
qed

lemma split_strip: "split (strip s) = split s"
proof -
  obtain t where d: "dropWhile isspace s = strip s @ t" and t: "\<forall>c \<in> set t. isspace c"
    using strip_decompose by blast
  have "split s = split_acc [] (dropWhile isspace s)"
    by (simp add: split_def split_acc_dropWhile)
  also have "\<dots> = split_acc [] (strip s)"
    using t by (simp add: d split_acc_append_spaces)
  finally show ?thesis by (simp add: split_def)
qed

lemma first_resolved_append:
  "first_resolved lookup (ps @ qs) =
     (case first_resolved lookup ps of Some name \<Rightarrow> Some name | None \<Rightarrow> first_resolved lookup qs)"
  by (induction ps) (auto split: option.splits)

lemma scan_spans_first_resolved:
  "scan_spans lookup ws n is = first_resolved lookup (map (\<lambda>i. join_sp (take n (drop i ws))) is)"
  by (induction "is") (auto split: option.splits)

lemma scan_lengths_first_resolved:
  "scan_lengths lookup ws ns =
     first_resolved lookup (concat (map (\<lambda>n. map join_sp (spans n ws)) ns))"
  by (induction ns)
     (auto simp: first_resolved_append scan_spans_first_resolved spans_def comp_def
           split: option.splits)

lemma scan_lengths_candidates:
  "scan_lengths lookup ws [4, 3, 2, 1] = first_resolved lookup (map join_sp (candidate_spans ws))"
  by (simp add: scan_lengths_first_resolved candidate_spans_def)

lemma candidate_spans_Nil: "candidate_spans [] = []"
  by (simp add: candidate_spans_def spans_def)

lemma split_acc_chars:
  "w \<in> set (split_acc cur x) \<Longrightarrow> set w \<subseteq> set cur \<union> {c \<in> set x. \<not> isspace c}"
  by (induction cur x rule: split_acc.induct) (auto split: if_splits)

lemma long_words_letters:
  "w \<in> set (long_words s) \<Longrightarrow> 4 \<le> length w \<and> (\<forall>c \<in> set w. is_letter c)"
proof -
  assume w: "w \<in> set (long_words s)"
  then have "w \<in> set (split_acc [] (blank_non_letters s))" and len: "4 \<le> length w"
    by (auto simp: long_words_def split_def)
  then have "set w \<subseteq> {c \<in> set (blank_non_letters s). \<not> isspace c}"
    using split_acc_chars by fastforce
  moreover have "\<forall>c \<in> set (blank_non_letters s). is_letter c \<or> isspace c"
    by (auto simp: blank_non_letters_def isspace_def)
  ultimately show ?thesis using len by blast
qed

text \<open>
  Claim C7, as amended. For every partner name the fuzzy stage returns what the amended
  wording describes: every character that is neither a letter nor whitespace is replaced
  by a blank and so separates words, the text is split into words, the words of at least
  4 characters are kept (each of them consists of letters only, lemma
  \<open>long_words_letters\<close>), and the spans of 4, 3, 2 and 1 kept words are tried in this
  order, left to right within a length; the result is the country of the first span the
  lookup resolves and nothing when none resolves. When every word has fewer than 4
  characters there is no result, and a missing partner name gives no result.
\<close>

theorem detect_country_from_partner_text_refines:
  "detect_country_from_partner_text lookup (Some s) = fuzzy_spec lookup s \<and>
   ((\<forall>w \<in> set (split (blank_non_letters s)). length w < 4) \<longrightarrow>
      detect_country_from_partner_text lookup (Some s) = None) \<and>
   detect_country_from_partner_text lookup None = None"
proof -
  have eq: "detect_country_from_partner_text lookup (Some s) = fuzzy_spec lookup s"
  proof (cases "strip (blank_non_letters s) = []")
    case True
    then have "split (blank_non_letters s) = []"
      using split_strip [of "blank_non_letters s"] by (simp add: split_def)
    then show ?thesis using True
      by (simp add: detect_country_from_partner_text_def fuzzy_spec_def long_words_def
          candidate_spans_Nil)
  next
    case False
    then show ?thesis
      unfolding detect_country_from_partner_text_def fuzzy_spec_def long_words_def Let_def
        scan_lengths_candidates split_strip
      by simp
  qed
  moreover have "fuzzy_spec lookup s = None"
    if "\<forall>w \<in> set (split (blank_non_letters s)). length w < 4"
  proof -
    have "long_words s = []" using that by (auto simp: long_words_def filter_empty_conv)
    then show ?thesis by (simp add: fuzzy_spec_def candidate_spans_Nil)
  qed
  moreover have "detect_country_from_partner_text lookup None = None"
    by (simp add: detect_country_from_partner_text_def)
  ultimately show ?thesis by simp
qed

theorem detect_country_from_partner_text_refines_witness:
  "split (blank_non_letters ''ab-cd e2f'') = [''ab'', ''cd'', ''e'', ''f''] \<and>
   detect_country_from_partner_text (\<lambda>p. Some p) (Some ''ab-cd e2f'') = None"
proof -
  have h: "split (blank_non_letters ''ab-cd e2f'') = [''ab'', ''cd'', ''e'', ''f'']"
    by code_simp
  show ?thesis
    using detect_country_from_partner_text_refines
            [of "\<lambda>p. Some p" "''ab-cd e2f''", THEN conjunct2, THEN conjunct1] h
    by simp
qed

text \<open>
  The claim with its own first step, the deletion of the characters that are neither
  letters nor whitespace, fails in both directions. In \<open>Guinea-Bissau Tel2\<close> the source
  separates the two names at the hyphen and resolves \<open>Guinea\<close>, where deletion leaves
  the single word \<open>GuineaBissau\<close>, which the lookup does not know. In \<open>Om-an Tel\<close> the
  source is left with words of fewer than 4 characters and returns nothing, where deletion
  leaves the word \<open>Oman\<close>.
\<close>

theorem fuzzy_stage_separates_at_non_letters:
  "detect_country_from_partner_text two_countries (Some ''Guinea-Bissau Tel2'') = Some ''Guinea'' \<and>
   fuzzy_strip_spec two_countries ''Guinea-Bissau Tel2'' = None \<and>
   detect_country_from_partner_text two_countries (Some ''Om-an Tel'') = None \<and>
   fuzzy_strip_spec two_countries ''Om-an Tel'' = Some ''Oman''"
  by code_simp

text \<open>The scan on an example: the longest span wins over a shorter one to its left.\<close>

lemma fuzzy_longest_span_first:
  "detect_country_from_partner_text
     (\<lambda>p. if p = ''Guinea'' then Some ''Guinea''
          else if p = ''Papua Guinea'' then Some ''Papua New Guinea'' else None)
     (Some ''Guinea Telecom Papua Guinea'') = Some ''Papua New Guinea''"
  by code_simp

section \<open>Idempotence of the resolution\<close>

lemma strip_Nil: "strip [] = []"
  by (simp add: strip_def)

lemma rstrip_prefix:
  "xs = rev (dropWhile P (rev xs)) @ rev (takeWhile P (rev xs))"
proof -
  have "rev (dropWhile P (rev xs)) @ rev (takeWhile P (rev xs))
        = rev (takeWhile P (rev xs) @ dropWhile P (rev xs))"
    by (simp only: rev_append)
  also have "\<dots> = xs" by (simp only: takeWhile_dropWhile_id rev_rev_ident)
  finally show ?thesis by simp
qed

lemma dropWhile_rstrip:
  assumes "dropWhile P xs = xs"
  shows "dropWhile P (rev (dropWhile P (rev xs))) = rev (dropWhile P (rev xs))"
proof (cases "rev (dropWhile P (rev xs)) = []")
  case True
  show ?thesis unfolding True by simp
next
  case False
  then have ne: "xs \<noteq> []" by auto
  have "hd xs = hd (rev (dropWhile P (rev xs)) @ rev (takeWhile P (rev xs)))"
    using rstrip_prefix [of xs P] by simp
  also have "\<dots> = hd (rev (dropWhile P (rev xs)))"
    using False by (rule hd_append2)
  finally have hd: "hd (rev (dropWhile P (rev xs))) = hd xs" by simp
  from assms ne have "\<not> P (hd xs)" by (simp add: dropWhile_eq_self_iff)
  with hd False show ?thesis by (simp add: dropWhile_eq_self_iff)
qed

lemma strip_idem: "strip (strip s) = strip s"
proof -
  let ?d = "dropWhile isspace s"
  let ?e = "rev (dropWhile isspace (rev ?d))"
  have e: "strip s = ?e" by (simp add: strip_def)
  have "dropWhile isspace ?e = ?e"
    by (rule dropWhile_rstrip) simp
  then have "strip ?e = rev (dropWhile isspace (rev ?e))" by (simp only: strip_def)
  also have "\<dots> = ?e" by simp
  finally show ?thesis by (simp only: e)
qed

lemma normalized_load_country: "normalized (load_country c)"
  by (simp add: normalized_def load_country_def Let_def strip_idem strip_Nil)

lemma normalized_Country_inferred: "normalized (Country_inferred pm_dict lookup row)"
  by (simp add: normalized_def Country_inferred_def Let_def strip_idem strip_Nil)

lemma infer_chain_skip:
  "(case Country row of None \<Rightarrow> [] | Some v \<Rightarrow> strip v) = [] \<Longrightarrow>
   infer_chain pm_dict lookup row = infer_chain pm_dict lookup (row\<lparr>Country := None\<rparr>)"
  by (simp add: infer_chain_def)

lemma Country_inferred_skip:
  "(case Country row of None \<Rightarrow> [] | Some v \<Rightarrow> strip v) = [] \<Longrightarrow>
   Country_inferred pm_dict lookup row = Country_inferred pm_dict lookup (row\<lparr>Country := None\<rparr>)"
  using infer_chain_skip [of row pm_dict lookup] by (simp add: Country_inferred_def)

lemma Country_inferred_direct:
  "normalized c \<Longrightarrow> c \<noteq> [] \<Longrightarrow> Country row = Some c \<Longrightarrow>
   Country_inferred pm_dict lookup row = c"
  by (simp add: Country_inferred_def infer_chain_def normalized_def Let_def)

lemma Country_inferred_idem_core:
  assumes "Country row = None \<or> (\<exists>c. Country row = Some c \<and> normalized c)"
  shows "Country_inferred pm_dict lookup (row\<lparr>Country := Some (Country_inferred pm_dict lookup row)\<rparr>)
         = Country_inferred pm_dict lookup row"
proof -
  let ?r = "Country_inferred pm_dict lookup row"
  have nr: "normalized ?r" by (rule normalized_Country_inferred)
  show ?thesis
  proof (cases "?r = []")
    case False
    show ?thesis by (rule Country_inferred_direct [OF nr False]) simp
  next
    case True
    have first: "(case Country row of None \<Rightarrow> [] | Some v \<Rightarrow> strip v) = []"
    proof (cases "Country row")
      case None
      then show ?thesis by simp
    next
      case (Some c)
      with assms have nc: "normalized c" by auto
      have "c = []"
      proof (rule ccontr)
        assume "c \<noteq> []"
        from Country_inferred_direct [OF nc this Some] True show False
          using \<open>c \<noteq> []\<close> by simp
      qed
      with Some show ?thesis by (simp add: strip_Nil)
    qed
    have "Country_inferred pm_dict lookup (row\<lparr>Country := Some ?r\<rparr>)
          = Country_inferred pm_dict lookup (row\<lparr>Country := Some ?r, Country := None\<rparr>)"
      by (rule Country_inferred_skip) (simp add: True strip_Nil)
    also have "\<dots> = Country_inferred pm_dict lookup (row\<lparr>Country := None\<rparr>)" by simp
    also have "\<dots> = ?r" by (rule Country_inferred_skip [OF first, symmetric])
    finally show ?thesis .
  qed
qed

lemma left_join_Country:
  assumes "row \<in> set (left_join parsed mapping)"
  shows "Country row = None \<or> (\<exists>k c. (k, c) \<in> set mapping \<and> Country row = Some c)"
proof -
  from assms obtain p n where
    r: "row \<in> set (case filter (\<lambda>(k, c). k = n) mapping of
           [] \<Rightarrow> [\<lparr>Country = None, Partner_Name = p, Network_ID = n\<rparr>]
         | ms \<Rightarrow> map (\<lambda>(k, c). \<lparr>Country = Some c, Partner_Name = p, Network_ID = n\<rparr>) ms)"
    by (auto simp: left_join_def)
  show ?thesis
  proof (cases "filter (\<lambda>(k, c). k = n) mapping")
    case Nil
    with r show ?thesis by simp
  next
    case (Cons m ms)
    with r have "row \<in> (\<lambda>(k, c). \<lparr>Country = Some c, Partner_Name = p, Network_ID = n\<rparr>) `
                  set (filter (\<lambda>(k, c). k = n) mapping)"
      by simp
    then obtain kc where kc: "kc \<in> set (filter (\<lambda>(k, c). k = n) mapping)"
      and row: "row = (\<lambda>(k, c). \<lparr>Country = Some c, Partner_Name = p, Network_ID = n\<rparr>) kc"
      by blast
    obtain k c where "kc = (k, c)" by (cases kc)
    with kc row have "(k, c) \<in> set mapping" "Country row = Some c" by auto
    then show ?thesis by blast
  qed
qed

lemma load_mapping_normalized:
  "load_mapping f = Inr mapping \<Longrightarrow> (k, c) \<in> set mapping \<Longrightarrow> normalized c"
  by (cases f) (auto simp: load_mapping_def normalized_load_country)

text \<open>
  Claim C4. For every record of the joined frame (the parsed records left-joined with the
  loaded network table), writing the resolved country back as the direct-join country and
  resolving again gives the same country, for every partner table and country-name lookup.
  Resolving is the chain followed by the normalisation of the \<open>Country_inferred\<close> column.
\<close>

theorem resolution_idempotent:
  assumes "load_mapping f = Inr mapping" and "row \<in> set (left_join parsed mapping)"
  shows "Country_inferred pm_dict lookup (row\<lparr>Country := Some (Country_inferred pm_dict lookup row)\<rparr>)
         = Country_inferred pm_dict lookup row"
proof (rule Country_inferred_idem_core)
  from left_join_Country [OF assms(2)] load_mapping_normalized [OF assms(1)]
  show "Country row = None \<or> (\<exists>c. Country row = Some c \<and> normalized c)" by blast
qed
theorem resolution_idempotent_witness:
  "load_mapping (Rows [(Some ''GBR01'', Some '' None '')]) = Inr [(''GBR01'', [])] \<and>
   \<lparr>Country = Some [], Partner_Name = ''Bharti Airtel Ltd'', Network_ID = ''GBR01''\<rparr>
     \<in> set (left_join [(''Bharti Airtel Ltd'', ''GBR01'')] [(''GBR01'', [])]) \<and>
   Country_inferred Map.empty (\<lambda>p. None)
     (\<lparr>Country = Some [], Partner_Name = ''Bharti Airtel Ltd'', Network_ID = ''GBR01''\<rparr>
        \<lparr>Country := Some (Country_inferred Map.empty (\<lambda>p. None)
           \<lparr>Country = Some [], Partner_Name = ''Bharti Airtel Ltd'', Network_ID = ''GBR01''\<rparr>)\<rparr>)
   = Country_inferred Map.empty (\<lambda>p. None)
       \<lparr>Country = Some [], Partner_Name = ''Bharti Airtel Ltd'', Network_ID = ''GBR01''\<rparr>"
proof -
  have h1: "load_mapping (Rows [(Some ''GBR01'', Some '' None '')]) = Inr [(''GBR01'', [])]"
    by code_simp
  have h2: "\<lparr>Country = Some [], Partner_Name = ''Bharti Airtel Ltd'', Network_ID = ''GBR01''\<rparr>
     \<in> set (left_join [(''Bharti Airtel Ltd'', ''GBR01'')] [(''GBR01'', [])])"
    by (simp add: left_join_def)
  from resolution_idempotent [OF h1 h2, of Map.empty "\<lambda>p. None"] h1 h2
  show ?thesis by blast
qed

text \<open>The same record resolves to India through the partner rules, in both passes.\<close>

lemma resolution_example:
  "Country_inferred Map.empty (\<lambda>p. None)
     \<lparr>Country = Some [], Partner_Name = ''Bharti Airtel Ltd'', Network_ID = ''GBR01''\<rparr> = ''India'' \<and>
   Country_inferred Map.empty (\<lambda>p. None)
     \<lparr>Country = Some ''India'', Partner_Name = ''Bharti Airtel Ltd'', Network_ID = ''GBR01''\<rparr> = ''India''"
  by code_simp

section \<open>Merging into a mapping table\<close>

lemma drop_duplicates_last_keys:
  "set (map fst (drop_duplicates_last tbl)) = set (map fst tbl)"
  by (induction tbl rule: drop_duplicates_last.induct) auto

lemma drop_duplicates_last_distinct: "distinct (map fst (drop_duplicates_last tbl))"
proof (induction tbl rule: drop_duplicates_last.induct)
  case 1
  show ?case by simp
next
  case (2 k c tbl)
  then show ?case
    using drop_duplicates_last_keys [of tbl] by auto
qed

lemma drop_duplicates_last_entry:
  "map_of (drop_duplicates_last tbl) = last_entry tbl"
proof (induction tbl rule: drop_duplicates_last.induct)
  case 1
  show ?case by (simp add: last_entry_def)
next
  case (2 k c tbl)
  have split: "last_entry ((k, c) # tbl) = [k \<mapsto> c] ++ last_entry tbl"
    by (simp add: last_entry_def)
  show ?case
  proof (cases "k \<in> set (map fst tbl)")
    case True
    then have "k \<in> dom (last_entry tbl)"
      by (simp add: last_entry_def dom_map_of_conv_image_fst)
    then have "[k \<mapsto> c] ++ last_entry tbl = last_entry tbl"
      by (intro ext) (auto simp: map_add_def split: option.splits)
    with True 2 show ?thesis by (simp add: split)
  next
    case False
    then have "k \<notin> dom (last_entry tbl)"
      by (simp add: last_entry_def dom_map_of_conv_image_fst)
    then have "[k \<mapsto> c] ++ last_entry tbl = (last_entry tbl)(k \<mapsto> c)"
      by (intro ext) (auto simp: map_add_def split: option.splits)
    with False 2 show ?thesis by (simp add: split)
  qed
qed

lemma sort_values_keys: "set (map fst (sort_values tbl)) = set (map fst tbl)"
  by (simp add: sort_values_def)

lemma sort_values_sorted: "sorted (map fst (sort_values tbl))"
  by (simp add: sort_values_def)

lemma sort_values_distinct:
  "distinct (map fst tbl) \<Longrightarrow> distinct (map fst (sort_values tbl))"
  by (simp add: sort_values_def distinct_map)

lemma sort_values_map_of:
  "distinct (map fst tbl) \<Longrightarrow> map_of (sort_values tbl) = map_of tbl"
  using map_of_inject_set [of "sort_values tbl" tbl] sort_values_distinct [of tbl]
  by (simp add: sort_values_def)

lemma last_entry_qualifying:
  "k \<in> set (map fst q) \<Longrightarrow> last_entry (table @ q) k = last_entry q k"
proof -
  assume "k \<in> set (map fst q)"
  then have "k \<in> dom (map_of (rev q))" by (simp add: dom_map_of_conv_image_fst)
  then show ?thesis by (simp add: last_entry_def map_add_dom_app_simps)
qed

lemma merge_spec_combined:
  assumes "qualifying batch \<noteq> []"
    and "combined = sort_values (drop_duplicates_last (table @ qualifying batch))"
  shows "merge_spec table batch \<lparr>returned = combined, written = Some combined\<rparr>"
proof -
  let ?q = "qualifying batch"
  let ?d = "drop_duplicates_last (table @ ?q)"
  have dist: "distinct (map fst ?d)" by (rule drop_duplicates_last_distinct)
  have keys: "set (map fst combined) = set (map fst table) \<union> set (map fst ?q)"
    unfolding assms(2) sort_values_keys drop_duplicates_last_keys by simp
  have entry: "map_of combined = last_entry (table @ ?q)"
    unfolding assms(2) sort_values_map_of [OF dist] by (rule drop_duplicates_last_entry)
  have "sorted (map fst combined)" unfolding assms(2) by (rule sort_values_sorted)
  moreover have "distinct (map fst combined)"
    unfolding assms(2) by (rule sort_values_distinct [OF dist])
  moreover have "\<forall>k \<in> set (map fst ?q). map_of combined k = last_entry ?q k"
    using last_entry_qualifying [of _ ?q table] by (simp only: entry) blast
  ultimately show ?thesis
    using assms(1) keys entry by (simp add: merge_spec_def Let_def)
qed

lemma save_new_mappings_to_csv_cases:
  "save_new_mappings_to_csv table batch =
     (if qualifying batch = [] then \<lparr>returned = table, written = None\<rparr>
      else \<lparr>returned = sort_values (drop_duplicates_last (table @ qualifying batch)),
            written = Some (sort_values (drop_duplicates_last (table @ qualifying batch)))\<rparr>)"
  by (cases batch) (simp_all add: save_new_mappings_to_csv_def qualifying_def Let_def)

lemma save_partner_mappings_cases:
  "save_partner_mappings table batch =
     (if qualifying batch = [] then \<lparr>returned = table, written = None\<rparr>
      else \<lparr>returned = sort_values (drop_duplicates_last (table @ qualifying batch)),
            written = Some (sort_values (drop_duplicates_last (table @ qualifying batch)))\<rparr>)"
  by (cases batch) (simp_all add: save_partner_mappings_def qualifying_def Let_def)

text \<open>
  Claim C2. For every mapping table and every batch of (key, country) pairs, both merge
  functions (network-keyed and partner-keyed) satisfy the merge contract: the pairs are
  trimmed and those with an empty key or country dropped; when none is left the table is
  returned unchanged and nothing is written; otherwise the table and the remaining pairs
  are combined, each key keeps its last occurrence (a pair of the batch replaces the
  table's entry), the rows are sorted by key, and that table is written and returned.
\<close>

theorem merge_contract:
  "merge_spec table batch (save_new_mappings_to_csv table batch) \<and>
   merge_spec table batch (save_partner_mappings table batch)"
proof (cases "qualifying batch = []")
  case True
  then show ?thesis
    by (simp add: save_new_mappings_to_csv_cases save_partner_mappings_cases merge_spec_def)
next
  case False
  then show ?thesis
    unfolding save_new_mappings_to_csv_cases save_partner_mappings_cases
    using merge_spec_combined [OF False refl, of table] by simp
qed

theorem merge_contract_witness:
  "qualifying [('' C '', ''France ''), (''A'', ''new''), ([], ''q''), (''D'', '' '')]
     = [(''C'', ''France''), (''A'', ''new'')] \<and>
   written (save_new_mappings_to_csv [(''B'', ''x''), (''A'', ''y''), (''B'', ''z'')]
              [('' C '', ''France ''), (''A'', ''new''), ([], ''q''), (''D'', '' '')])
     = Some (returned (save_new_mappings_to_csv [(''B'', ''x''), (''A'', ''y''), (''B'', ''z'')]
              [('' C '', ''France ''), (''A'', ''new''), ([], ''q''), (''D'', '' '')])) \<and>
   map_of (returned (save_new_mappings_to_csv [(''B'', ''x''), (''A'', ''y''), (''B'', ''z'')]
              [('' C '', ''France ''), (''A'', ''new''), ([], ''q''), (''D'', '' '')])) ''A''
     = Some ''new''"
proof -
  have q: "qualifying [('' C '', ''France ''), (''A'', ''new''), ([], ''q''), (''D'', '' '')]
     = [(''C'', ''France''), (''A'', ''new'')]"
    by code_simp
  have e: "last_entry [(''C'', ''France''), (''A'', ''new'')] ''A'' = Some ''new''"
    by code_simp
  let ?r = "save_new_mappings_to_csv [(''B'', ''x''), (''A'', ''y''), (''B'', ''z'')]
              [('' C '', ''France ''), (''A'', ''new''), ([], ''q''), (''D'', '' '')]"
  have ne: "[(''C'', ''France''), (''A'', ''new'')] \<noteq> ([] :: mapping_table)" by simp
  note m = merge_contract [of "[(''B'', ''x''), (''A'', ''y''), (''B'', ''z'')]"
      "[('' C '', ''France ''), (''A'', ''new''), ([], ''q''), (''D'', '' '')]", THEN conjunct1,
      unfolded merge_spec_def Let_def q]
  from m ne have w: "written ?r = Some (returned ?r)" by metis
  from m ne have "\<forall>k \<in> set (map fst [(''C'', ''France''), (''A'', ''new'')]).
              map_of (returned ?r) k = last_entry [(''C'', ''France''), (''A'', ''new'')] k"
    by metis
  then have "map_of (returned ?r) ''A'' = last_entry [(''C'', ''France''), (''A'', ''new'')] ''A''"
    by simp
  with w q e show ?thesis by simp
qed

lemma merge_example:
  "save_new_mappings_to_csv [(''B'', ''x''), (''A'', ''y''), (''B'', ''z'')]
              [('' C '', ''France ''), (''A'', ''new''), ([], ''q''), (''D'', '' '')]
     = \<lparr>returned = [(''A'', ''new''), (''B'', ''z''), (''C'', ''France'')],
        written = Some [(''A'', ''new''), (''B'', ''z''), (''C'', ''France'')]\<rparr>"
  by code_simp

lemma merge_no_qualifying_pair:
  "save_partner_mappings [(''B'', ''x'')] [([], ''q''), (''D'', '' '')]
     = \<lparr>returned = [(''B'', ''x'')], written = None\<rparr>"
  by code_simp

section \<open>The automatic save leaves existing entries alone\<close>

lemma drop_duplicates_set: "set (drop_duplicates xs) = set xs"
  by (induction xs rule: drop_duplicates.induct) auto

lemma network_new_pairs_fresh:
  assumes "(n, c) \<in> set (network_new_pairs mapping inferred)"
  shows "strip n \<notin> set (map (\<lambda>(k, c). strip k) mapping) \<and> strip c \<noteq> []"
  using assms by (auto simp: network_new_pairs_def Let_def)

lemma qualifying_keys:
  "(k, c) \<in> set (qualifying batch) \<Longrightarrow> \<exists>n. n \<in> set (map fst batch) \<and> k = strip n"
  by (force simp: qualifying_def)

lemma existing_key_not_in_batch:
  assumes "k \<in> set (map fst mapping)"
  shows "k \<notin> set (map fst (qualifying (network_new_pairs mapping inferred)))"
proof
  assume "k \<in> set (map fst (qualifying (network_new_pairs mapping inferred)))"
  then obtain c where "(k, c) \<in> set (qualifying (network_new_pairs mapping inferred))" by auto
  then obtain n where n: "n \<in> set (map fst (network_new_pairs mapping inferred))"
    and k: "k = strip n" using qualifying_keys by blast
  from n obtain c' where "(n, c') \<in> set (network_new_pairs mapping inferred)" by auto
  then have fresh: "strip n \<notin> set (map (\<lambda>(k, c). strip k) mapping)"
    using network_new_pairs_fresh by blast
  have "strip k = k" by (simp add: k strip_idem)
  moreover from assms have "strip k \<in> set (map (\<lambda>(k, c). strip k) mapping)" by force
  ultimately show False using fresh k by simp
qed

lemma last_entry_distinct: "distinct (map fst tbl) \<Longrightarrow> last_entry tbl = map_of tbl"
  unfolding last_entry_def using map_of_inject_set [of "rev tbl" tbl]
  by (simp add: rev_map [symmetric])

lemma last_entry_not_in_batch:
  "k \<notin> set (map fst q) \<Longrightarrow> last_entry (table @ q) k = last_entry table k"
proof -
  assume "k \<notin> set (map fst q)"
  then have "k \<notin> dom (map_of (rev q))" by (simp add: dom_map_of_conv_image_fst)
  then show ?thesis by (simp add: last_entry_def map_add_dom_app_simps)
qed

lemma save_keeps_other_entries:
  assumes "k \<in> set (map fst table)" and "k \<notin> set (map fst (qualifying batch))"
  shows "last_entry (returned (save_new_mappings_to_csv table batch)) k = last_entry table k"
proof (cases "qualifying batch = []")
  case True
  then show ?thesis by (simp add: save_new_mappings_to_csv_cases)
next
  case False
  let ?r = "save_new_mappings_to_csv table batch"
  from merge_spec_combined [OF False refl, of table] False
  have spec: "merge_spec table batch ?r" by (simp add: save_new_mappings_to_csv_cases)
  with False have d: "distinct (map fst (returned ?r))"
    and e: "\<forall>k \<in> set (map fst (table @ qualifying batch)).
              map_of (returned ?r) k = last_entry (table @ qualifying batch) k"
    by (simp_all add: merge_spec_def Let_def)
  from assms(1) e have "map_of (returned ?r) k = last_entry (table @ qualifying batch) k"
    by simp
  then show ?thesis
    by (simp add: last_entry_distinct [OF d] last_entry_not_in_batch [OF assms(2)])
qed

text \<open>
  Claim C10. For every network identifier that is a key of the loaded network table,
  whatever country is stored with it (the empty one included), the batch of inferred pairs
  contains no pair with that identifier, before and after the trimming of the merge, and
  the entry of the identifier in the table returned by the automatic save is the entry it
  had. The manual save has no such filter: a correction for an identifier of the table
  replaces its entry.
\<close>

theorem auto_save_keeps_existing:
  "(k \<in> set (map fst mapping) \<longrightarrow>
      k \<notin> set (map fst (network_new_pairs mapping inferred)) \<and>
      k \<notin> set (map fst (qualifying (network_new_pairs mapping inferred))) \<and>
      last_entry (returned (auto_save_network mapping inferred)) k = last_entry mapping k) \<and>
   manual_save_network [(''BMU01'', [])] [(''BMU01'', ''Bermuda'')]
     = Some \<lparr>returned = [(''BMU01'', ''Bermuda'')], written = Some [(''BMU01'', ''Bermuda'')]\<rparr>"
proof (intro conjI impI)
  assume k: "k \<in> set (map fst mapping)"
  show "k \<notin> set (map fst (network_new_pairs mapping inferred))"
  proof
    assume "k \<in> set (map fst (network_new_pairs mapping inferred))"
    then obtain c where "(k, c) \<in> set (network_new_pairs mapping inferred)" by auto
    then have "strip k \<notin> set (map (\<lambda>(k, c). strip k) mapping)"
      using network_new_pairs_fresh by blast
    moreover from k have "strip k \<in> set (map (\<lambda>(k, c). strip k) mapping)" by force
    ultimately show False by simp
  qed
  show nq: "k \<notin> set (map fst (qualifying (network_new_pairs mapping inferred)))"
    by (rule existing_key_not_in_batch [OF k])
  show "last_entry (returned (auto_save_network mapping inferred)) k = last_entry mapping k"
  proof (cases "network_new_pairs mapping inferred = []")
    case True
    then show ?thesis by (simp add: auto_save_network_def)
  next
    case False
    then show ?thesis
      using save_keeps_other_entries [OF k nq] by (simp add: auto_save_network_def Let_def)
  qed
next
  show "manual_save_network [(''BMU01'', [])] [(''BMU01'', ''Bermuda'')]
     = Some \<lparr>returned = [(''BMU01'', ''Bermuda'')], written = Some [(''BMU01'', ''Bermuda'')]\<rparr>"
    by code_simp
qed

theorem auto_save_keeps_existing_witness:
  "''BMU01'' \<in> set (map fst [(''BMU01'', []), (''AAA'', ''x'')]) \<and>
   ''BMU01'' \<notin> set (map fst (network_new_pairs [(''BMU01'', []), (''AAA'', ''x'')]
                                 [(''BMU01'', ''Bermuda''), (''GBR01'', ''United Kingdom'')])) \<and>
   last_entry (returned (auto_save_network [(''BMU01'', []), (''AAA'', ''x'')]
                           [(''BMU01'', ''Bermuda''), (''GBR01'', ''United Kingdom'')])) ''BMU01''
     = last_entry [(''BMU01'', []), (''AAA'', ''x'')] ''BMU01''"
proof -
  have h: "''BMU01'' \<in> set (map fst [(''BMU01'', []), (''AAA'', ''x'')])" by simp
  from auto_save_keeps_existing [of "''BMU01''" "[(''BMU01'', []), (''AAA'', ''x'')]"
      "[(''BMU01'', ''Bermuda''), (''GBR01'', ''United Kingdom'')]"] h
  show ?thesis by blast
qed

lemma auto_save_example:
  "auto_save_network [(''BMU01'', []), (''AAA'', ''x'')]
       [(''BMU01'', ''Bermuda''), (''GBR01'', ''United Kingdom'')]
   = \<lparr>returned = [(''AAA'', ''x''), (''BMU01'', []), (''GBR01'', ''United Kingdom'')],
      written = Some [(''AAA'', ''x''), (''BMU01'', []), (''GBR01'', ''United Kingdom'')]\<rparr>"
  by code_simp

section \<open>Sheet acceptance\<close>

lemma columns_assign: "set (columns (assign df name f)) = insert name (set (columns df))"
  by (auto simp: assign_def)





section \<open>Empty results\<close>

lemma parse_sheets_no_records:
  assumes "\<forall>s \<in> set workbook. parse_sheet parse yr s = Inr Skipped
                              \<or> parse_sheet parse yr s = Inr (Extracted [])"
  shows "\<exists>row_sets. parse_sheets parse yr workbook = Inr row_sets \<and> concat row_sets = []"
  using assms
proof (induction workbook)
  case Nil
  show ?case by simp
next
  case (Cons s ss)
  then obtain row_sets where rs: "parse_sheets parse yr ss = Inr row_sets" "concat row_sets = []"
    by auto
  from Cons.prems have "parse_sheet parse yr s = Inr Skipped
                        \<or> parse_sheet parse yr s = Inr (Extracted [])" by simp
  then show ?case using rs by auto
qed

lemma parse_files_empty:
  assumes "\<forall>uf \<in> set ufs. parse_workbook parse (fst uf) (snd uf) = Inr []"
  shows "\<exists>parts. parse_files parse ufs = Inr parts \<and> concat parts = []"
  using assms
proof (induction ufs)
  case Nil
  show ?case by simp
next
  case (Cons uf ufs)
  then obtain parts where "parse_files parse ufs = Inr parts" "concat parts = []" by auto
  with Cons.prems show ?case by auto
qed

text \<open>
  Claim C8. A workbook in which every sheet is skipped or yields no record parses to the
  empty record set, without error. When at least one file is uploaded and every file
  parses to the empty record set, the script stops with the error "No usable data found";
  in no case does the parse section hand an empty record set on.
\<close>

theorem empty_workbook_and_empty_batch:
  "((\<forall>s \<in> set workbook.
        parse_sheet parse (safe_year_from_filename filename) s = Inr Skipped
      \<or> parse_sheet parse (safe_year_from_filename filename) s = Inr (Extracted []))
     \<longrightarrow> parse_workbook parse workbook filename = Inr []) \<and>
   (uploaded_files \<noteq> [] \<and>
    (\<forall>uf \<in> set uploaded_files. parse_workbook parse (fst uf) (snd uf) = Inr [])
     \<longrightarrow> raw_all parse uploaded_files = Inl Stop_No_Usable_Data) \<and>
   raw_all parse uploaded_files \<noteq> Inr []"
proof (intro conjI impI)
  assume "\<forall>s \<in> set workbook.
        parse_sheet parse (safe_year_from_filename filename) s = Inr Skipped
      \<or> parse_sheet parse (safe_year_from_filename filename) s = Inr (Extracted [])"
  from parse_sheets_no_records [OF this]
  show "parse_workbook parse workbook filename = Inr []"
    by (auto simp: parse_workbook_def)
next
  assume "uploaded_files \<noteq> [] \<and>
    (\<forall>uf \<in> set uploaded_files. parse_workbook parse (fst uf) (snd uf) = Inr [])"
  then have ne: "uploaded_files \<noteq> []"
    and "\<forall>uf \<in> set uploaded_files. parse_workbook parse (fst uf) (snd uf) = Inr []" by simp_all
  from parse_files_empty [OF this(2)] ne
  show "raw_all parse uploaded_files = Inl Stop_No_Usable_Data"
    by (auto simp: raw_all_def)
next
  show "raw_all parse uploaded_files \<noteq> Inr []"
    by (auto simp: raw_all_def split: sum.splits)
qed

theorem empty_workbook_and_empty_batch_witness:
  "parse_workbook (\<lambda>s. None)
      [(''Total'', \<lparr>columns = [''Partner Name'', ''Network ID''], rows = []\<rparr>),
       (''Jan'', \<lparr>columns = [''Network ID'', ''Volume (KB)''], rows = []\<rparr>)] ''r_2020.xlsx'' = Inr [] \<and>
   raw_all (\<lambda>s. None)
      [([(''Total'', \<lparr>columns = [''Partner Name'', ''Network ID''], rows = []\<rparr>),
         (''Jan'', \<lparr>columns = [''Network ID'', ''Volume (KB)''], rows = []\<rparr>)], ''r_2020.xlsx'')]
     = Inl Stop_No_Usable_Data"
proof -
  let ?wb = "[(''Total'', \<lparr>columns = [''Partner Name'', ''Network ID''], rows = []\<rparr>),
       (''Jan'', \<lparr>columns = [''Network ID'', ''Volume (KB)''], rows = []\<rparr>)]"
  have s1: "parse_sheet (\<lambda>s. None) (safe_year_from_filename ''r_2020.xlsx'')
              (''Total'', \<lparr>columns = [''Partner Name'', ''Network ID''], rows = []\<rparr>) = Inr Skipped"
    by code_simp
  have s2: "parse_sheet (\<lambda>s. None) (safe_year_from_filename ''r_2020.xlsx'')
              (''Jan'', \<lparr>columns = [''Network ID'', ''Volume (KB)''], rows = []\<rparr>) = Inr Skipped"
    by code_simp
  have h: "\<forall>s \<in> set ?wb.
        parse_sheet (\<lambda>s. None) (safe_year_from_filename ''r_2020.xlsx'') s = Inr Skipped
      \<or> parse_sheet (\<lambda>s. None) (safe_year_from_filename ''r_2020.xlsx'') s = Inr (Extracted [])"
    using s1 s2 by simp
  note t = empty_workbook_and_empty_batch [of ?wb "\<lambda>s. None" "''r_2020.xlsx''" "[(?wb, ''r_2020.xlsx'')]"]
  from t h have w: "parse_workbook (\<lambda>s. None) ?wb ''r_2020.xlsx'' = Inr []" by blast
  with t have "raw_all (\<lambda>s. None) [(?wb, ''r_2020.xlsx'')] = Inl Stop_No_Usable_Data" by simp
  with w show ?thesis by simp
qed


section \<open>Numeric fields of the extracted records\<close>







section \<open>The scanning loop\<close>

lemma contains_set: "contains s sub \<Longrightarrow> set sub \<subseteq> set s"
proof (induction s)
  case Nil
  then show ?case by simp
next
  case (Cons c cs)
  from Cons.prems have "take (length sub) (c # cs) = sub \<or> contains cs sub" by simp
  then show ?case
  proof
    assume "take (length sub) (c # cs) = sub"
    then have "set sub = set (take (length sub) (c # cs))" by simp
    also have "\<dots> \<subseteq> set (c # cs)" by (rule set_take_subset)
    finally show ?thesis .
  next
    assume "contains cs sub"
    with Cons.IH show ?thesis by auto
  qed
qed

lemma set_strip: "set (strip s) \<subseteq> set s"
proof -
  have "set (strip s) \<subseteq> set (dropWhile isspace s)"
    unfolding strip_def using set_dropWhileD [of _ isspace "rev (dropWhile isspace s)"] by auto
  also have "\<dots> \<subseteq> set s" using set_dropWhileD [of _ isspace s] by auto
  finally show ?thesis .
qed

lemma set_norm_text: "set (norm_text s) \<subseteq> {c \<in> set (lower s). \<not> isspace c}"
  using set_strip [of s] by (auto simp: norm_text_def lower_def)

lemma set_split_at: "set xs = set (take n xs) \<union> set (drop n xs)"
proof -
  have "set (take n xs @ drop n xs) = set (take n xs) \<union> set (drop n xs)" by (rule set_append)
  then show ?thesis by (simp only: append_take_drop_id)
qed

lemma set_split_while: "set xs = set (takeWhile P xs) \<union> set (dropWhile P xs)"
proof -
  have "set (takeWhile P xs @ dropWhile P xs) = set (takeWhile P xs) \<union> set (dropWhile P xs)"
    by (rule set_append)
  then show ?thesis by (simp only: takeWhile_dropWhile_id)
qed

lemma t_not_space: "\<not> isspace (CHR ''t'')"
  by (simp add: isspace_def)

lemma t_not_digit: "\<not> is_digit (CHR ''t'')"
  by (simp add: is_digit_def)

lemma daily_vol_match_no_t:
  assumes "daily_vol_match s"
  shows "CHR ''t'' \<notin> set (lower s)"
proof
  assume t: "CHR ''t'' \<in> set (lower s)"
  define l where "l = lower s"
  define r where "r = dropWhile isspace (drop 6 l)"
  from assms have v: "take 6 l = ''volume''" and k: "take 4 r = ''(kb)''"
    and tail: "drop 4 r = [] \<or> (\<exists>ds. drop 4 r = CHR ''.'' # ds \<and> list_all is_digit ds)"
    unfolding daily_vol_match_def Let_def l_def r_def by (auto split: list.splits)
  from t have "CHR ''t'' \<in> set (take 6 l) \<union> set (drop 6 l)"
    unfolding l_def [symmetric] using set_split_at [of l 6] by simp
  then have "CHR ''t'' \<in> set (drop 6 l)" unfolding v by simp
  then have "CHR ''t'' \<in> set (takeWhile isspace (drop 6 l)) \<union> set r"
    unfolding r_def using set_split_while [of "drop 6 l" isspace] by simp
  moreover have "CHR ''t'' \<notin> set (takeWhile isspace (drop 6 l))"
    using t_not_space by (auto dest: set_takeWhileD)
  ultimately have "CHR ''t'' \<in> set r" by simp
  then have "CHR ''t'' \<in> set (take 4 r) \<union> set (drop 4 r)"
    using set_split_at [of r 4] by simp
  then have in_tail: "CHR ''t'' \<in> set (drop 4 r)" unfolding k by simp
  from tail show False
  proof
    assume "drop 4 r = []"
    with in_tail show False by simp
  next
    assume "\<exists>ds. drop 4 r = CHR ''.'' # ds \<and> list_all is_digit ds"
    then obtain ds where ds: "drop 4 r = CHR ''.'' # ds" and dig: "list_all is_digit ds" by blast
    from in_tail ds have "CHR ''t'' \<in> set ds" by simp
    with dig have "is_digit (CHR ''t'')" by (simp add: list_all_iff)
    with t_not_digit show False by simp
  qed
qed

lemma daily_not_earlier:
  assumes "daily_vol_match (strip c)"
  shows "\<not> contains (norm_text (strip c)) ''partnername''"
    and "\<not> contains (norm_text (strip c)) ''networkid''"
    and "norm_text (strip c) \<noteq> ''totalvolume(kb)''"
    and "\<not> contains (norm_text (strip c)) ''total''"
    and "norm_text (strip c) \<noteq> ''totalduration(min)''"
    and "\<not> contains (norm_text (strip c)) ''totalduration''"
    and "\<not> contains (norm_text (strip c)) ''totalgprs''"
    and "\<not> contains (norm_text (strip c)) ''totalgprsamount''"
    and "\<not> contains (norm_text (strip c)) ''totalvoice''"
    and "\<not> contains (norm_text (strip c)) ''totalvoiceamount''"
proof -
  have no_t: "CHR ''t'' \<notin> set (norm_text (strip c))"
    using daily_vol_match_no_t [OF assms] set_norm_text [of "strip c"] by blast
  have c: "\<And>sub. CHR ''t'' \<in> set sub \<Longrightarrow> \<not> contains (norm_text (strip c)) sub"
    using contains_set no_t by blast
  show "\<not> contains (norm_text (strip c)) ''partnername''" by (rule c) simp
  show "\<not> contains (norm_text (strip c)) ''networkid''" by (rule c) simp
  show "\<not> contains (norm_text (strip c)) ''total''" by (rule c) simp
  show "\<not> contains (norm_text (strip c)) ''totalduration''" by (rule c) simp
  show "\<not> contains (norm_text (strip c)) ''totalgprs''" by (rule c) simp
  show "\<not> contains (norm_text (strip c)) ''totalgprsamount''" by (rule c) simp
  show "\<not> contains (norm_text (strip c)) ''totalvoice''" by (rule c) simp
  show "\<not> contains (norm_text (strip c)) ''totalvoiceamount''" by (rule c) simp
  show "norm_text (strip c) \<noteq> ''totalvolume(kb)''" using no_t by auto
  show "norm_text (strip c) \<noteq> ''totalduration(min)''" using no_t by auto
qed

lemma header_kind_of_chain:
  fixes c :: string
  defines "lc \<equiv> norm_text (strip c)"
  shows "header_kind_of c =
     (if contains lc ''partnername'' then Partner_Header
      else if contains lc ''networkid'' then Network_Header
      else if lc = ''totalvolume(kb)'' \<or> (contains lc ''total'' \<and> contains lc ''volume(kb)'')
        then Volume_Header
      else if lc = ''totalduration(min)''
              \<or> (contains lc ''total'' \<and> contains lc ''duration(min)'')
              \<or> (contains lc ''totalduration'' \<and> contains lc ''min'')
        then Duration_Header
      else if (contains lc ''totalgprs'' \<and> contains lc ''amount'') \<or> contains lc ''totalgprsamount''
        then Gprs_Header
      else if (contains lc ''totalvoice'' \<and> contains lc ''amount'') \<or> contains lc ''totalvoiceamount''
        then Voice_Header
      else if daily_vol_match (strip c) then Daily_Header
      else Other_Header)"
  unfolding header_kind_of_def Let_def lc_def by (rule refl)

lemma scan_column_kind:
  "scan_column st c =
     (case header_kind_of c of
        Partner_Header \<Rightarrow> st\<lparr>rename_map := (rename_map st)(c \<mapsto> ''Partner Name'')\<rparr>
      | Network_Header \<Rightarrow> st\<lparr>rename_map := (rename_map st)(c \<mapsto> ''Network ID'')\<rparr>
      | Volume_Header \<Rightarrow> st\<lparr>total_volume_col := Some c\<rparr>
      | Duration_Header \<Rightarrow> st\<lparr>total_duration_col := Some c\<rparr>
      | Gprs_Header \<Rightarrow> st\<lparr>total_gprs_col := Some c\<rparr>
      | Voice_Header \<Rightarrow> st\<lparr>total_voice_col := Some c\<rparr>
      | Daily_Header \<Rightarrow> st\<lparr>daily_volume_cols := daily_volume_cols st @ [c]\<rparr>
      | Other_Header \<Rightarrow> st)"
proof -
  define p1 where "p1 \<longleftrightarrow> contains (norm_text (strip c)) ''partnername''"
  define p2 where "p2 \<longleftrightarrow> contains (norm_text (strip c)) ''networkid''"
  define p3 where "p3 \<longleftrightarrow> norm_text (strip c) = ''totalvolume(kb)''
      \<or> (contains (norm_text (strip c)) ''total'' \<and> contains (norm_text (strip c)) ''volume(kb)'')"
  define p4 where "p4 \<longleftrightarrow> norm_text (strip c) = ''totalduration(min)''
      \<or> (contains (norm_text (strip c)) ''total'' \<and> contains (norm_text (strip c)) ''duration(min)'')
      \<or> (contains (norm_text (strip c)) ''totalduration'' \<and> contains (norm_text (strip c)) ''min'')"
  define p5 where "p5 \<longleftrightarrow> (contains (norm_text (strip c)) ''totalgprs''
        \<and> contains (norm_text (strip c)) ''amount'')
      \<or> contains (norm_text (strip c)) ''totalgprsamount''"
  define p6 where "p6 \<longleftrightarrow> (contains (norm_text (strip c)) ''totalvoice''
        \<and> contains (norm_text (strip c)) ''amount'')
      \<or> contains (norm_text (strip c)) ''totalvoiceamount''"
  define p7 where "p7 \<longleftrightarrow> daily_vol_match (strip c)"
  have k: "header_kind_of c =
     (if p1 then Partner_Header else if p2 then Network_Header else if p3 then Volume_Header
      else if p4 then Duration_Header else if p5 then Gprs_Header else if p6 then Voice_Header
      else if p7 then Daily_Header else Other_Header)"
    unfolding header_kind_of_chain p1_def p2_def p3_def p4_def p5_def p6_def p7_def
    by (rule refl)
  have s: "scan_column st c =
     (if p1 then st\<lparr>rename_map := (rename_map st)(c \<mapsto> ''Partner Name'')\<rparr>
      else if p2 then st\<lparr>rename_map := (rename_map st)(c \<mapsto> ''Network ID'')\<rparr>
      else if p3 then st\<lparr>total_volume_col := Some c\<rparr>
      else if p4 then st\<lparr>total_duration_col := Some c\<rparr>
      else if p5 then st\<lparr>total_gprs_col := Some c\<rparr>
      else if p6 then st\<lparr>total_voice_col := Some c\<rparr>
      else if p7 then st\<lparr>daily_volume_cols := daily_volume_cols st @ [c]\<rparr>
      else st)"
    unfolding scan_column_def Let_def p1_def p2_def p3_def p4_def p5_def p6_def p7_def
    by (rule refl)
  show ?thesis unfolding k s by simp
qed

lemma header_kind_of_facts:
  shows kind_daily_iff: "header_kind_of c = Daily_Header \<longleftrightarrow> daily_vol_match (strip c)"
    and kind_volume_D: "header_kind_of c = Volume_Header \<Longrightarrow>
          norm_text (strip c) = ''totalvolume(kb)''
          \<or> (contains (norm_text (strip c)) ''total'' \<and> contains (norm_text (strip c)) ''volume(kb)'')"
proof -
  define p1 where "p1 \<longleftrightarrow> contains (norm_text (strip c)) ''partnername''"
  define p2 where "p2 \<longleftrightarrow> contains (norm_text (strip c)) ''networkid''"
  define p3 where "p3 \<longleftrightarrow> norm_text (strip c) = ''totalvolume(kb)''
      \<or> (contains (norm_text (strip c)) ''total'' \<and> contains (norm_text (strip c)) ''volume(kb)'')"
  define p4 where "p4 \<longleftrightarrow> norm_text (strip c) = ''totalduration(min)''
      \<or> (contains (norm_text (strip c)) ''total'' \<and> contains (norm_text (strip c)) ''duration(min)'')
      \<or> (contains (norm_text (strip c)) ''totalduration'' \<and> contains (norm_text (strip c)) ''min'')"
  define p5 where "p5 \<longleftrightarrow> (contains (norm_text (strip c)) ''totalgprs''
        \<and> contains (norm_text (strip c)) ''amount'')
      \<or> contains (norm_text (strip c)) ''totalgprsamount''"
  define p6 where "p6 \<longleftrightarrow> (contains (norm_text (strip c)) ''totalvoice''
        \<and> contains (norm_text (strip c)) ''amount'')
      \<or> contains (norm_text (strip c)) ''totalvoiceamount''"
  define p7 where "p7 \<longleftrightarrow> daily_vol_match (strip c)"
  have k: "header_kind_of c =
     (if p1 then Partner_Header else if p2 then Network_Header else if p3 then Volume_Header
      else if p4 then Duration_Header else if p5 then Gprs_Header else if p6 then Voice_Header
      else if p7 then Daily_Header else Other_Header)"
    unfolding header_kind_of_chain p1_def p2_def p3_def p4_def p5_def p6_def p7_def
    by (rule refl)
  have early: "p7 \<Longrightarrow> \<not> p1 \<and> \<not> p2 \<and> \<not> p3 \<and> \<not> p4 \<and> \<not> p5 \<and> \<not> p6"
    unfolding p1_def p2_def p3_def p4_def p5_def p6_def p7_def
    using daily_not_earlier [of c] by blast
  show "header_kind_of c = Daily_Header \<longleftrightarrow> daily_vol_match (strip c)"
    unfolding k p7_def [symmetric] using early by (auto split: if_splits)
  show "header_kind_of c = Volume_Header \<Longrightarrow>
          norm_text (strip c) = ''totalvolume(kb)''
          \<or> (contains (norm_text (strip c)) ''total'' \<and> contains (norm_text (strip c)) ''volume(kb)'')"
    unfolding k p3_def [symmetric] by (auto split: if_splits)
qed

lemma scan_column_daily_cols:
  "daily_volume_cols (scan_column st c)
     = (if daily_vol_match (strip c) then daily_volume_cols st @ [c] else daily_volume_cols st)"
  unfolding scan_column_kind kind_daily_iff [symmetric]
  by (cases "header_kind_of c") simp_all

lemma scan_column_total_volume:
  "header_kind_of c \<noteq> Volume_Header \<Longrightarrow>
   total_volume_col (scan_column st c) = total_volume_col st"
  unfolding scan_column_kind by (cases "header_kind_of c") simp_all

lemma scan_column_rename:
  "rename_map (scan_column st c) x = Some n \<Longrightarrow>
   rename_map st x = Some n \<or>
   (x = c \<and> \<not> daily_vol_match (strip c) \<and> (n = ''Partner Name'' \<or> n = ''Network ID''))"
  unfolding scan_column_kind kind_daily_iff [symmetric]
  by (cases "header_kind_of c") (auto split: if_splits)

lemma scan_daily:
  "daily_volume_cols (foldl scan_column st cols)
     = daily_volume_cols st @ filter (\<lambda>c. daily_vol_match (strip c)) cols"
  by (induction cols arbitrary: st) (simp_all add: scan_column_daily_cols)

lemma scan_total_volume:
  "\<forall>c \<in> set cols. header_kind_of c \<noteq> Volume_Header \<Longrightarrow>
   total_volume_col (foldl scan_column st cols) = total_volume_col st"
  by (induction cols arbitrary: st) (simp_all add: scan_column_total_volume)





lemma scan_rename:
  "rename_map (foldl scan_column st cols) x = Some n \<Longrightarrow>
   rename_map st x = Some n \<or>
   (\<not> daily_vol_match (strip x) \<and> (n = ''Partner Name'' \<or> n = ''Network ID''))"
proof (induction cols arbitrary: st)
  case Nil
  then show ?case by simp
next
  case (Cons c cols)
  from Cons.IH [of "scan_column st c"] Cons.prems
  have "rename_map (scan_column st c) x = Some n \<or>
        (\<not> daily_vol_match (strip x) \<and> (n = ''Partner Name'' \<or> n = ''Network ID''))"
    by simp
  then show ?case using scan_column_rename [of st c x n] by blast
qed

section \<open>Columns through the assignments\<close>

lemma in_positions: "j \<in> set (positions cols name) \<longleftrightarrow> j < length cols \<and> cols ! j = name"
  by (auto simp: positions_def)

lemma length_rows_assign: "length (rows (assign df name f)) = length (rows df)"
  by (simp add: assign_def)

lemma assign_target:
  assumes "k < length (rows df)" and "j \<in> set (positions (columns (assign df name f)) name)"
  shows "(rows (assign df name f) ! k) j = f (rows df ! k)"
proof (cases "name \<in> set (columns df)")
  case True
  with assms show ?thesis by (simp add: assign_def in_positions)
next
  case False
  from assms(2) False have "j < Suc (length (columns df))"
    and at: "(columns df @ [name]) ! j = name"
    by (simp_all add: assign_def in_positions)
  have "j = length (columns df)"
  proof (rule ccontr)
    assume "j \<noteq> length (columns df)"
    with \<open>j < Suc (length (columns df))\<close> have lt: "j < length (columns df)" by simp
    with at have "columns df ! j = name" by (simp add: nth_append)
    with lt False show False by (metis nth_mem)
  qed
  with assms(1) False show ?thesis by (simp add: assign_def)
qed

lemma assign_holds:
  "column_holds (assign df name f) name (\<lambda>k. f (rows df ! k))"
  unfolding column_holds_def
  using assign_target [of _ df _ name f]
  by (simp add: columns_assign length_rows_assign)

lemma assign_kept:
  assumes "m \<noteq> name"
  shows "column_kept m df (assign df name f)"
proof (cases "name \<in> set (columns df)")
  case True
  with assms show ?thesis
    by (auto simp: column_kept_def assign_def in_positions)
next
  case False
  have pos: "j \<in> set (positions (columns df @ [name]) m) \<longleftrightarrow> j \<in> set (positions (columns df) m)"
    for j
    using assms by (auto simp: in_positions nth_append less_Suc_eq)
  show ?thesis
    unfolding column_kept_def
  proof (intro conjI allI impI ballI)
    show "length (rows (assign df name f)) = length (rows df)" by (rule length_rows_assign)
    show "set (positions (columns (assign df name f)) m) = set (positions (columns df) m)"
      using False pos by (auto simp: assign_def)
    fix k j
    assume "k < length (rows df)" and "j \<in> set (positions (columns df) m)"
    then show "(rows (assign df name f) ! k) j = (rows df ! k) j"
      using False by (simp add: assign_def in_positions)
  qed
qed

lemma set_total_kept:
  "set_total parse total_col name df = Inr df' \<Longrightarrow> m \<noteq> name \<Longrightarrow> column_kept m df df'"
  by (auto simp: set_total_def assign_kept split: option.splits sum.splits)

lemma column_holds_kept:
  assumes "column_holds df m g" and "column_kept m df df'"
  shows "column_holds df' m g"
proof -
  from assms(1) have "m \<in> set (columns df)" by (simp add: column_holds_def)
  then obtain j where "j < length (columns df)" "columns df ! j = m"
    by (auto simp: in_set_conv_nth)
  then have "j \<in> set (positions (columns df) m)" by (simp add: in_positions)
  with assms(2) have "j \<in> set (positions (columns df') m)" by (simp add: column_kept_def)
  then have "m \<in> set (columns df')" by (auto simp: in_positions)
  with assms show ?thesis by (simp add: column_holds_def column_kept_def)
qed

lemma sum_list_filter_disjoint:
  fixes g :: "'a \<Rightarrow> real"
  assumes "\<forall>x \<in> set xs. \<not> (P x \<and> Q x)"
  shows "sum_list (map g (filter (\<lambda>x. P x \<or> Q x) xs))
         = sum_list (map g (filter P xs)) + sum_list (map g (filter Q xs))"
  using assms by (induction xs) auto

lemma sum_select_positions:
  fixes g :: "nat \<Rightarrow> real"
  assumes "distinct names"
  shows "sum_list (map g (select_positions cols names))
         = sum_list (map g (filter (\<lambda>i. cols ! i \<in> set names) [0 ..< length cols]))"
  using assms
proof (induction names)
  case Nil
  show ?case by (simp add: select_positions_def)
next
  case (Cons n ns)
  then have n: "n \<notin> set ns" and IH: "sum_list (map g (select_positions cols ns))
         = sum_list (map g (filter (\<lambda>i. cols ! i \<in> set ns) [0 ..< length cols]))"
    by simp_all
  have "sum_list (map g (select_positions cols (n # ns)))
        = sum_list (map g (positions cols n)) + sum_list (map g (select_positions cols ns))"
    by (simp add: select_positions_def)
  also have "\<dots> = sum_list (map g (filter (\<lambda>i. cols ! i = n) [0 ..< length cols]))
                  + sum_list (map g (filter (\<lambda>i. cols ! i \<in> set ns) [0 ..< length cols]))"
    by (simp add: IH positions_def)
  also have "\<dots> = sum_list (map g (filter (\<lambda>i. cols ! i = n \<or> cols ! i \<in> set ns)
                                             [0 ..< length cols]))"
    using n by (intro sum_list_filter_disjoint [symmetric]) auto
  finally show ?case by simp
qed

section \<open>The derived total volume\<close>

lemma init_scan_fields:
  "rename_map init_scan = Map.empty" "total_volume_col init_scan = None"
  "daily_volume_cols init_scan = []" "total_duration_col init_scan = None"
  "total_gprs_col init_scan = None" "total_voice_col init_scan = None"
  by (simp_all add: init_scan_def)

lemma not_daily_identifier_names:
  "\<not> daily_vol_match (strip ''Partner Name'')" "\<not> daily_vol_match (strip ''Network ID'')"
  by code_simp+

lemma renamed_positions:
  assumes "daily_vol_match (strip name)"
  shows "positions (map (\<lambda>c. case rename_map (foldl scan_column init_scan cols) c of
                               None \<Rightarrow> c | Some n \<Rightarrow> n) cols) name
         = positions cols name"
proof -
  let ?st = "foldl scan_column init_scan cols"
  have ren: "(case rename_map ?st c of None \<Rightarrow> c | Some n \<Rightarrow> n) = name \<longleftrightarrow> c = name" for c
  proof (cases "rename_map ?st c")
    case None
    then show ?thesis by simp
  next
    case (Some n)
    from scan_rename [OF Some] have nd: "\<not> daily_vol_match (strip c)"
      and n: "n = ''Partner Name'' \<or> n = ''Network ID''"
      by (simp_all add: init_scan_fields)
    from n assms not_daily_identifier_names have "n \<noteq> name" by auto
    moreover from nd assms have "c \<noteq> name" by auto
    ultimately show ?thesis using Some by simp
  qed
  show ?thesis
    unfolding positions_def by (rule filter_cong) (simp_all add: ren)
qed

lemma renamed_select_positions:
  assumes "\<forall>name \<in> set names. daily_vol_match (strip name)"
  shows "select_positions (map (\<lambda>c. case rename_map (foldl scan_column init_scan cols) c of
                               None \<Rightarrow> c | Some n \<Rightarrow> n) cols) names
         = select_positions cols names"
  unfolding select_positions_def
  using assms by (intro arg_cong [where f = concat] map_cong refl) (simp add: renamed_positions)

lemma daily_positions_clean:
  "daily_positions headers
     = filter (\<lambda>i. map clean_header headers ! i
                      \<in> set (filter (\<lambda>c. daily_vol_match (strip c)) (map clean_header headers)))
              [0 ..< length (map clean_header headers)]"
  unfolding daily_positions_def
  by (rule filter_cong) (auto simp: is_daily_header_def)

lemma no_total_volume_col:
  assumes "\<forall>h \<in> set headers. \<not> is_total_volume_header h"
  shows "total_volume_col (foldl scan_column init_scan (map clean_header headers)) = None"
proof -
  have "\<forall>c \<in> set (map clean_header headers). header_kind_of c \<noteq> Volume_Header"
    using assms kind_volume_D by (fastforce simp: is_total_volume_header_def Let_def)
  from scan_total_volume [OF this] show ?thesis by (simp add: init_scan_fields)
qed

lemma set_total_volume_derived:
  assumes "total_volume_col st = None"
  shows "set_total_volume parse st df =
           Inr (assign df ''Total Volume(KB)''
                  (\<lambda>r. Num (sum_list (map (\<lambda>i. coerce parse (r i))
                                         (select_positions (columns df) (daily_volume_cols st))))))"
  using assms by (simp add: set_total_volume_def select_positions_def)

text \<open>
  The derived total on a sheet whose daily headers stay pairwise different after cleaning.
  Let the sheet have no total-volume header (none whose normal form is
  \<open>totalvolume(kb)\<close> or contains both \<open>total\<close> and \<open>volume(kb)\<close>) and let the
  normalisation return. Then the normalised frame has the column \<open>Total Volume(KB)\<close>, it
  has the rows of the sheet, and in every row the cell of that column is the sum, over all
  columns whose header matches the daily pattern, of the row's cells coerced to numbers (a
  cell that is not a number counts 0). Without any daily column the cell is 0 in every row.
\<close>

lemma derived_total_volume_distinct:
  assumes std: "standardize_columns parse df0 = Inr df"
    and no_total: "\<forall>h \<in> set (columns df0). \<not> is_total_volume_header h"
    and dist: "distinct (map clean_header (filter is_daily_header (columns df0)))"
  shows "length (rows df) = length (rows df0) \<and>
         ''Total Volume(KB)'' \<in> set (columns df) \<and>
         (\<forall>k < length (rows df0). \<forall>j \<in> set (positions (columns df) ''Total Volume(KB)'').
             (rows df ! k) j = Num (daily_sum parse (columns df0) (rows df0 ! k))) \<and>
         ((\<forall>h \<in> set (columns df0). \<not> is_daily_header h) \<longrightarrow>
            (\<forall>k < length (rows df0). \<forall>j \<in> set (positions (columns df) ''Total Volume(KB)'').
               (rows df ! k) j = Num 0))"
proof -
  let ?cols = "map clean_header (columns df0)"
  let ?st = "foldl scan_column init_scan ?cols"
  let ?df = "\<lparr>columns = map (\<lambda>c. case rename_map ?st c of None \<Rightarrow> c | Some n \<Rightarrow> n) ?cols,
              rows = rows df0\<rparr>"
  let ?names = "filter (\<lambda>c. daily_vol_match (strip c)) ?cols"
  let ?F = "\<lambda>r. Num (sum_list (map (\<lambda>i. coerce parse (r i))
                                   (select_positions (columns ?df) (daily_volume_cols ?st))))"
  from std obtain df1 df2 df3 where
    1: "set_total_volume parse ?st ?df = Inr df1" and
    2: "set_total parse (total_duration_col ?st) ''Total Duration(min)'' df1 = Inr df2" and
    3: "set_total parse (total_gprs_col ?st) ''Total GPRS Amount(USD)'' df2 = Inr df3" and
    4: "set_total parse (total_voice_col ?st) ''Total Voice Amount(USD)'' df3 = Inr df"
    by (auto simp: standardize_columns_def Let_def split: sum.splits)
  have names: "daily_volume_cols ?st = ?names" by (simp add: scan_daily init_scan_fields)
  have "is_daily_header = (\<lambda>h. daily_vol_match (strip (clean_header h)))"
    by (rule ext) (simp add: is_daily_header_def)
  with dist have dnames: "distinct ?names"
    by (simp add: filter_map comp_def)
  have sel: "select_positions (columns ?df) (daily_volume_cols ?st) = select_positions ?cols ?names"
    unfolding names using renamed_select_positions [of ?names ?cols] by simp
  have sum: "sum_list (map (\<lambda>i. coerce parse (r i)) (select_positions ?cols ?names))
             = daily_sum parse (columns df0) r" for r
    unfolding daily_sum_def daily_positions_clean
    by (rule sum_select_positions [OF dnames])
  have F: "?F r = Num (daily_sum parse (columns df0) r)" for r
    by (simp only: sel sum)
  from 1 have df1: "df1 = assign ?df ''Total Volume(KB)'' ?F"
    by (simp add: set_total_volume_derived [OF no_total_volume_col [OF no_total]])
  have h1: "column_holds df1 ''Total Volume(KB)'' (\<lambda>k. ?F (rows ?df ! k))"
    unfolding df1 by (rule assign_holds)
  have k2: "column_kept ''Total Volume(KB)'' df1 df2" by (rule set_total_kept [OF 2]) simp
  have k3: "column_kept ''Total Volume(KB)'' df2 df3" by (rule set_total_kept [OF 3]) simp
  have k4: "column_kept ''Total Volume(KB)'' df3 df" by (rule set_total_kept [OF 4]) simp
  have holds: "column_holds df ''Total Volume(KB)'' (\<lambda>k. ?F (rows ?df ! k))"
    by (rule column_holds_kept [OF column_holds_kept [OF column_holds_kept [OF h1 k2] k3] k4])
  have len1: "length (rows df1) = length (rows df0)"
    unfolding df1 by (simp add: length_rows_assign)
  have len: "length (rows df) = length (rows df0)"
    using k2 k3 k4 len1 by (simp add: column_kept_def)
  have cells: "\<forall>k < length (rows df0). \<forall>j \<in> set (positions (columns df) ''Total Volume(KB)'').
             (rows df ! k) j = Num (daily_sum parse (columns df0) (rows df0 ! k))"
    using holds len F by (simp add: column_holds_def)
  have zero: "daily_sum parse (columns df0) r = 0"
    if "\<forall>h \<in> set (columns df0). \<not> is_daily_header h" for r
  proof -
    have "daily_positions (columns df0) = []"
      using that by (auto simp: daily_positions_def filter_empty_conv)
    then show ?thesis by (simp add: daily_sum_def)
  qed
  from holds have "''Total Volume(KB)'' \<in> set (columns df)" by (simp add: column_holds_def)
  with len cells zero show ?thesis by simp
qed


lemma derived_total_volume_distinct_example:
  "\<not> isl (standardize_columns (\<lambda>s. None)
            \<lparr>columns = [''Volume (KB)'', ''Volume (KB).1''],
             rows = [\<lambda>i. [Num 3, Txt ''x''] ! i]\<rparr>) \<and>
   positions (columns (projr (standardize_columns (\<lambda>s. None)
            \<lparr>columns = [''Volume (KB)'', ''Volume (KB).1''],
             rows = [\<lambda>i. [Num 3, Txt ''x''] ! i]\<rparr>))) ''Total Volume(KB)'' = [2] \<and>
   (rows (projr (standardize_columns (\<lambda>s. None)
            \<lparr>columns = [''Volume (KB)'', ''Volume (KB).1''],
             rows = [\<lambda>i. [Num 3, Txt ''x''] ! i]\<rparr>)) ! 0) 2 = Num 3 \<and>
   \<not> isl (standardize_columns (\<lambda>s. None)
            \<lparr>columns = [''Remarks''], rows = [\<lambda>i. [Num 7] ! i]\<rparr>) \<and>
   positions (columns (projr (standardize_columns (\<lambda>s. None)
            \<lparr>columns = [''Remarks''], rows = [\<lambda>i. [Num 7] ! i]\<rparr>))) ''Total Volume(KB)'' = [1] \<and>
   (rows (projr (standardize_columns (\<lambda>s. None)
            \<lparr>columns = [''Remarks''], rows = [\<lambda>i. [Num 7] ! i]\<rparr>)) ! 0) 1 = Num 0"
proof -
  let ?raw = "\<lparr>columns = [''Volume (KB)'', ''Volume (KB).1''],
              rows = [\<lambda>i. [Num 3, Txt ''x''] ! i]\<rparr>"
  let ?out = "projr (standardize_columns (\<lambda>s. None) ?raw)"
  have h0: "\<not> isl (standardize_columns (\<lambda>s. None) ?raw)" by code_simp
  then have h1: "standardize_columns (\<lambda>s. None) ?raw = Inr ?out" by simp
  have h2: "\<forall>h \<in> set (columns ?raw). \<not> is_total_volume_header h" by code_simp
  have h3: "distinct (map clean_header (filter is_daily_header (columns ?raw)))" by code_simp
  have pos: "positions (columns ?out) ''Total Volume(KB)'' = [2]" by code_simp
  have sum: "daily_sum (\<lambda>s. None) (columns ?raw) (rows ?raw ! 0) = 3" by code_simp
  from derived_total_volume_distinct [OF h1 h2 h3]
  have "\<forall>k < length (rows ?raw). \<forall>j \<in> set (positions (columns ?out) ''Total Volume(KB)'').
          (rows ?out ! k) j = Num (daily_sum (\<lambda>s. None) (columns ?raw) (rows ?raw ! k))"
    by blast
  then have "(rows ?out ! 0) 2 = Num (daily_sum (\<lambda>s. None) (columns ?raw) (rows ?raw ! 0))"
    unfolding pos by simp
  with h0 pos sum have first: "\<not> isl (standardize_columns (\<lambda>s. None) ?raw) \<and>
      positions (columns ?out) ''Total Volume(KB)'' = [2] \<and> (rows ?out ! 0) 2 = Num 3"
    by simp
  let ?plain = "\<lparr>columns = [''Remarks''], rows = [\<lambda>i. [Num 7] ! i]\<rparr>"
  let ?res = "projr (standardize_columns (\<lambda>s. None) ?plain)"
  have g0: "\<not> isl (standardize_columns (\<lambda>s. None) ?plain)" by code_simp
  then have g1: "standardize_columns (\<lambda>s. None) ?plain = Inr ?res" by simp
  have g2: "\<forall>h \<in> set (columns ?plain). \<not> is_total_volume_header h" by code_simp
  have g3: "distinct (map clean_header (filter is_daily_header (columns ?plain)))" by code_simp
  have g4: "\<forall>h \<in> set (columns ?plain). \<not> is_daily_header h" by code_simp
  have gpos: "positions (columns ?res) ''Total Volume(KB)'' = [1]" by code_simp
  from derived_total_volume_distinct [OF g1 g2 g3] g4
  have "\<forall>k < length (rows ?plain). \<forall>j \<in> set (positions (columns ?res) ''Total Volume(KB)'').
          (rows ?res ! k) j = Num 0"
    by blast
  then have "(rows ?res ! 0) 1 = Num 0" unfolding gpos by simp
  with first g0 gpos show ?thesis by simp
qed

text \<open>
  Claim C5. The claim asks for the row-wise sum of all columns whose header matches the
  daily pattern. The source collects the cleaned labels of the daily columns and selects
  the columns by label, so two daily headers that become equal when cleaned are each
  selected once per label and counted twice. On the sheet with the headers
  \<open>Volume (KB)\<close> and \<open>Volume (KB)\<close> followed by a blank, and the row 3, 4, there is no
  total-volume header, both columns are daily columns, their row-wise sum is 7, and the
  normalised frame holds 14 under \<open>Total Volume(KB)\<close>.
\<close>

theorem duplicate_daily_label_counted_twice:
  "\<not> list_ex is_total_volume_header [''Volume (KB)'', ''Volume (KB) ''] \<and>
   daily_positions [''Volume (KB)'', ''Volume (KB) ''] = [0, 1] \<and>
   daily_sum (\<lambda>s. None) [''Volume (KB)'', ''Volume (KB) ''] (\<lambda>i. [Num 3, Num 4] ! i) = 7 \<and>
   \<not> isl (standardize_columns (\<lambda>s. None)
            \<lparr>columns = [''Volume (KB)'', ''Volume (KB) ''],
             rows = [\<lambda>i. [Num 3, Num 4] ! i]\<rparr>) \<and>
   positions (columns (projr (standardize_columns (\<lambda>s. None)
            \<lparr>columns = [''Volume (KB)'', ''Volume (KB) ''],
             rows = [\<lambda>i. [Num 3, Num 4] ! i]\<rparr>))) ''Total Volume(KB)'' = [2] \<and>
   (rows (projr (standardize_columns (\<lambda>s. None)
            \<lparr>columns = [''Volume (KB)'', ''Volume (KB) ''],
             rows = [\<lambda>i. [Num 3, Num 4] ! i]\<rparr>)) ! 0) 2 = Num 14"
  by code_simp

section \<open>Sheet acceptance and the zero defaults\<close>










text \<open>A sheet on which the normalisation raises is not skipped: the exception leaves the
  loop over the sheets. Two headers that both clean to \<open>Total Duration(min)\<close> make the
  selection by label a frame, which the numeric conversion refuses.\<close>

lemma sheet_raises_not_skipped:
  "isl (standardize_columns (\<lambda>s. None)
          \<lparr>columns = [''Partner Name'', ''Network ID'', ''Total Duration(min)'',
                      ''Total Duration(min) ''],
           rows = []\<rparr>) \<and>
   parse_sheet (\<lambda>s. None) None
     (''Jan'', \<lparr>columns = [''Partner Name'', ''Network ID'', ''Total Duration(min)'',
                          ''Total Duration(min) ''],
               rows = []\<rparr>) = Inl TypeError"
  by code_simp

end
